theory Spec2Isabelle
  imports Complex_Main "HOL-Library.Multiset" "HOL-Library.Sublist" "HOL-Library.Log_Nat"
begin

section \<open>Python values\<close>

text \<open>
  A Python \<^verbatim>\<open>float\<close> is an IEEE 754 binary64 number: a finite value (a rational of the
  form \<open>m * 2 ^ e\<close>), an infinity or NaN. The two zeros \<open>0.0\<close> and \<open>-0.0\<close> compare equal in
  Python and are one value here.
\<close>

datatype pyfloat = Fin rat | PosInf | NegInf | NaN

text \<open>
  The values \<^verbatim>\<open>convert_units\<close> can be called with: an \<^verbatim>\<open>int\<close> (unbounded; \<^verbatim>\<open>bool\<close> is a
  subclass of \<^verbatim>\<open>int\<close>, \<^verbatim>\<open>True\<close> being 1), a \<^verbatim>\<open>float\<close>, or an object of any other type
  (\<^verbatim>\<open>str\<close>, \<^verbatim>\<open>None\<close>, ...).
\<close>

datatype pyval = PyInt int | PyFloat pyfloat | PyOther

datatype py_exn = OverflowError | ZeroDivisionError | TypeError | KeyError

section \<open>Binary64 arithmetic\<close>

text \<open>
  Every operation of binary64 returns the exact result rounded to the nearest representable
  number, ties to the even mantissa. For \<open>q > 0\<close>, \<open>ilog2 q\<close> is the exponent \<open>e\<close> with
  \<open>2 ^ e \<le> q < 2 ^ (e + 1)\<close>; the representable numbers near \<open>q\<close> are the multiples of
  \<open>2 ^ (e - 52)\<close>, and of \<open>2 ^ - 1074\<close> in the subnormal range. A result of magnitude
  \<open>2 ^ 1024\<close> or more after rounding is an infinity.
\<close>

definition ilog2 :: "rat \<Rightarrow> int" where
  "ilog2 q = (if 1 \<le> q then bitlen \<lfloor>q\<rfloor> - 1 else - bitlen (\<lceil>1 / q\<rceil> - 1))"

definition round_half_even :: "rat \<Rightarrow> int" where
  "round_half_even x =
     (let f = \<lfloor>x\<rfloor>; d = x - of_int f
      in if d < 1 / 2 then f else if 1 / 2 < d then f + 1 else if even f then f else f + 1)"

definition round64 :: "rat \<Rightarrow> pyfloat" where
  "round64 q =
     (if q = 0 then Fin 0
      else let a = \<bar>q\<bar>;
               p = max (ilog2 a - 52) (- 1074);
               r = of_int (round_half_even (a / 2 powi p)) * 2 powi p
           in if 2 ^ 1024 \<le> r then (if 0 < q then PosInf else NegInf)
              else Fin (if 0 < q then r else - r))"

subsection \<open>The operations on floats\<close>

fun fneg :: "pyfloat \<Rightarrow> pyfloat" where
  "fneg (Fin a) = Fin (- a)"
| "fneg PosInf = NegInf"
| "fneg NegInf = PosInf"
| "fneg NaN = NaN"


text \<open>A decimal literal of the source denotes the nearest binary64 number.\<close>

definition float_lit :: "rat \<Rightarrow> pyfloat" where
  "float_lit q = round64 q"

fun fadd :: "pyfloat \<Rightarrow> pyfloat \<Rightarrow> pyfloat" where
  "fadd (Fin a) (Fin b) = round64 (a + b)"
| "fadd NaN y = NaN"
| "fadd x NaN = NaN"
| "fadd PosInf NegInf = NaN"
| "fadd NegInf PosInf = NaN"
| "fadd PosInf y = PosInf"
| "fadd x PosInf = PosInf"
| "fadd NegInf y = NegInf"
| "fadd x NegInf = NegInf"

definition fsub :: "pyfloat \<Rightarrow> pyfloat \<Rightarrow> pyfloat" where
  "fsub x y = fadd x (fneg y)"

definition signed_inf :: "bool \<Rightarrow> pyfloat" where
  "signed_inf positive = (if positive then PosInf else NegInf)"

fun fmul :: "pyfloat \<Rightarrow> pyfloat \<Rightarrow> pyfloat" where
  "fmul (Fin a) (Fin b) = round64 (a * b)"
| "fmul NaN y = NaN"
| "fmul x NaN = NaN"
| "fmul PosInf (Fin b) = (if b = 0 then NaN else signed_inf (0 < b))"
| "fmul NegInf (Fin b) = (if b = 0 then NaN else signed_inf (b < 0))"
| "fmul (Fin a) PosInf = (if a = 0 then NaN else signed_inf (0 < a))"
| "fmul (Fin a) NegInf = (if a = 0 then NaN else signed_inf (a < 0))"
| "fmul PosInf PosInf = PosInf"
| "fmul PosInf NegInf = NegInf"
| "fmul NegInf PosInf = NegInf"
| "fmul NegInf NegInf = PosInf"

text \<open>
  The quotient by a divisor other than zero. Python raises \<^verbatim>\<open>ZeroDivisionError\<close> for a zero
  divisor (\<open>fdiv\<close> below), so \<open>fquot\<close> is never asked for one.
\<close>

fun fquot :: "pyfloat \<Rightarrow> pyfloat \<Rightarrow> pyfloat" where
  "fquot (Fin a) (Fin b) = round64 (a / b)"
| "fquot NaN y = NaN"
| "fquot x NaN = NaN"
| "fquot PosInf (Fin b) = signed_inf (0 < b)"
| "fquot NegInf (Fin b) = signed_inf (b < 0)"
| "fquot (Fin a) y = Fin 0"
| "fquot x y = NaN"

definition fdiv :: "pyfloat \<Rightarrow> pyfloat \<Rightarrow> py_exn + pyfloat" where
  "fdiv x y = (if y = Fin 0 then Inl ZeroDivisionError else Inr (fquot x y))"

section \<open>Python arithmetic on numbers\<close>

text \<open>
  An operation either returns a value or raises. With one \<^verbatim>\<open>int\<close> and one \<^verbatim>\<open>float\<close>
  operand the \<^verbatim>\<open>int\<close> is converted to the nearest float first, which raises
  \<^verbatim>\<open>OverflowError\<close> when the integer is too large; \<^verbatim>\<open>int / int\<close> is the correctly
  rounded quotient.
\<close>

definition bind_exn :: "py_exn + 'a \<Rightarrow> ('a \<Rightarrow> py_exn + 'b) \<Rightarrow> py_exn + 'b" where
  "bind_exn m f = (case m of Inl e \<Rightarrow> Inl e | Inr x \<Rightarrow> f x)"

definition float_of_int :: "int \<Rightarrow> py_exn + pyfloat" where
  "float_of_int i = (case round64 (of_int i) of Fin r \<Rightarrow> Inr (Fin r) | _ \<Rightarrow> Inl OverflowError)"

fun py_add :: "pyval \<Rightarrow> pyval \<Rightarrow> py_exn + pyval" where
  "py_add (PyInt a) (PyInt b) = Inr (PyInt (a + b))"
| "py_add (PyInt a) (PyFloat y) = bind_exn (float_of_int a) (\<lambda>x. Inr (PyFloat (fadd x y)))"
| "py_add (PyFloat x) (PyInt b) = bind_exn (float_of_int b) (\<lambda>y. Inr (PyFloat (fadd x y)))"
| "py_add (PyFloat x) (PyFloat y) = Inr (PyFloat (fadd x y))"
| "py_add x y = Inl TypeError"

fun py_sub :: "pyval \<Rightarrow> pyval \<Rightarrow> py_exn + pyval" where
  "py_sub (PyInt a) (PyInt b) = Inr (PyInt (a - b))"
| "py_sub (PyInt a) (PyFloat y) = bind_exn (float_of_int a) (\<lambda>x. Inr (PyFloat (fsub x y)))"
| "py_sub (PyFloat x) (PyInt b) = bind_exn (float_of_int b) (\<lambda>y. Inr (PyFloat (fsub x y)))"
| "py_sub (PyFloat x) (PyFloat y) = Inr (PyFloat (fsub x y))"
| "py_sub x y = Inl TypeError"

fun py_mul :: "pyval \<Rightarrow> pyval \<Rightarrow> py_exn + pyval" where
  "py_mul (PyInt a) (PyInt b) = Inr (PyInt (a * b))"
| "py_mul (PyInt a) (PyFloat y) = bind_exn (float_of_int a) (\<lambda>x. Inr (PyFloat (fmul x y)))"
| "py_mul (PyFloat x) (PyInt b) = bind_exn (float_of_int b) (\<lambda>y. Inr (PyFloat (fmul x y)))"
| "py_mul (PyFloat x) (PyFloat y) = Inr (PyFloat (fmul x y))"
| "py_mul x y = Inl TypeError"

fun py_truediv :: "pyval \<Rightarrow> pyval \<Rightarrow> py_exn + pyval" where
  "py_truediv (PyInt a) (PyInt b) =
     (if b = 0 then Inl ZeroDivisionError
      else case round64 (of_int a / of_int b) of
             Fin r \<Rightarrow> Inr (PyFloat (Fin r))
           | _ \<Rightarrow> Inl OverflowError)"
| "py_truediv (PyInt a) (PyFloat y) =
     bind_exn (float_of_int a) (\<lambda>x. bind_exn (fdiv x y) (\<lambda>r. Inr (PyFloat r)))"
| "py_truediv (PyFloat x) (PyInt b) =
     bind_exn (float_of_int b) (\<lambda>y. bind_exn (fdiv x y) (\<lambda>r. Inr (PyFloat r)))"
| "py_truediv (PyFloat x) (PyFloat y) = bind_exn (fdiv x y) (\<lambda>r. Inr (PyFloat r))"
| "py_truediv x y = Inl TypeError"

section \<open>\<^verbatim>\<open>convert_units\<close>\<close>

text \<open>\<^verbatim>\<open>isinstance(value, (int, float))\<close>.\<close>

definition isinstance_int_float :: "pyval \<Rightarrow> bool" where
  "isinstance_int_float v = (case v of PyInt i \<Rightarrow> True | PyFloat x \<Rightarrow> True | PyOther \<Rightarrow> False)"

text \<open>
  Wherever the function fails it shows a message with \<^verbatim>\<open>st.error\<close> and returns \<^verbatim>\<open>None\<close>;
  the result \<open>Inl m\<close> is that outcome, with the message shown: "Please enter a valid number",
  "Invalid unit combination: ... to ..." or "Conversion Error: ...".
\<close>

datatype st_error =
  Please_enter_a_valid_number
| Invalid_unit_combination string string
| Conversion_Error py_exn

text \<open>
  The registry \<^verbatim>\<open>ureg\<close> of the \<^verbatim>\<open>pint\<close> library is not part of the repository. The three
  lines that use it (\<^verbatim>\<open>value * ureg(from_unit)\<close>, \<^verbatim>\<open>quantity.to(to_unit)\<close>,
  \<^verbatim>\<open>float(result.magnitude)\<close>) are a parameter of the model: a function that returns the
  float, or \<open>None\<close> when any of the three raises.
\<close>

type_synonym unit_registry = "pyval \<Rightarrow> string \<Rightarrow> string \<Rightarrow> pyfloat option"

text \<open>
  In the temperature branch an exception of the arithmetic is caught by the outer
  \<^verbatim>\<open>except Exception\<close>. \<^verbatim>\<open>x * 5/9\<close> is \<^verbatim>\<open>(x * 5) / 9\<close>.
\<close>

definition convert_units :: "unit_registry \<Rightarrow> pyval \<Rightarrow> string \<Rightarrow> string \<Rightarrow> st_error + pyval" where
  "convert_units ureg v from_unit to_unit =
     (if \<not> isinstance_int_float v then Inl Please_enter_a_valid_number
      else if from_unit \<in> set [''celsius'', ''fahrenheit'', ''kelvin'', ''rankine''] then
        (case bind_exn
                (if from_unit = ''celsius'' then py_add v (PyFloat (float_lit (27315 / 100)))
                 else if from_unit = ''fahrenheit'' then
                   bind_exn (bind_exn (py_add v (PyFloat (float_lit (45967 / 100))))
                     (\<lambda>s. py_mul s (PyInt 5))) (\<lambda>p. py_truediv p (PyInt 9))
                 else if from_unit = ''rankine'' then
                   bind_exn (py_mul v (PyInt 5)) (\<lambda>p. py_truediv p (PyInt 9))
                 else Inr v)
                (\<lambda>kelvin.
                   if to_unit = ''celsius'' then py_sub kelvin (PyFloat (float_lit (27315 / 100)))
                   else if to_unit = ''fahrenheit'' then
                     bind_exn (bind_exn (py_mul kelvin (PyInt 9)) (\<lambda>p. py_truediv p (PyInt 5)))
                       (\<lambda>q. py_sub q (PyFloat (float_lit (45967 / 100))))
                   else if to_unit = ''rankine'' then
                     bind_exn (py_mul kelvin (PyInt 9)) (\<lambda>p. py_truediv p (PyInt 5))
                   else Inr kelvin)
         of Inl e \<Rightarrow> Inl (Conversion_Error e)
          | Inr r \<Rightarrow> Inr r)
      else (case ureg v from_unit to_unit of
              None \<Rightarrow> Inl (Invalid_unit_combination from_unit to_unit)
            | Some r \<Rightarrow> Inr (PyFloat r)))"

subsection \<open>The formulas of the specification\<close>

text \<open>
  Section 4.2 of the specification: normalise to kelvin (\<open>k = c + 273.15\<close>,
  \<open>k = (f + 459.67) * 5/9\<close>, \<open>k = r * 5/9\<close>, identity), then convert kelvin to the target
  (\<open>c = k - 273.15\<close>, \<open>f = k * 9/5 - 459.67\<close>, \<open>r = k * 9/5\<close>, identity), on floats.
\<close>

datatype temperature_unit = Celsius | Fahrenheit | Kelvin | Rankine

fun unit_name :: "temperature_unit \<Rightarrow> string" where
  "unit_name Celsius = ''celsius''"
| "unit_name Fahrenheit = ''fahrenheit''"
| "unit_name Kelvin = ''kelvin''"
| "unit_name Rankine = ''rankine''"

fun spec_to_kelvin :: "temperature_unit \<Rightarrow> pyfloat \<Rightarrow> pyfloat" where
  "spec_to_kelvin Celsius c = fadd c (float_lit (27315 / 100))"
| "spec_to_kelvin Fahrenheit f = fquot (fmul (fadd f (float_lit (45967 / 100))) (Fin 5)) (Fin 9)"
| "spec_to_kelvin Rankine r = fquot (fmul r (Fin 5)) (Fin 9)"
| "spec_to_kelvin Kelvin k = k"

fun spec_from_kelvin :: "temperature_unit \<Rightarrow> pyfloat \<Rightarrow> pyfloat" where
  "spec_from_kelvin Celsius k = fsub k (float_lit (27315 / 100))"
| "spec_from_kelvin Fahrenheit k = fsub (fquot (fmul k (Fin 9)) (Fin 5)) (float_lit (45967 / 100))"
| "spec_from_kelvin Rankine k = fquot (fmul k (Fin 9)) (Fin 5)"
| "spec_from_kelvin Kelvin k = k"

text \<open>\<^verbatim>\<open>math.isfinite\<close>: neither an infinity nor NaN.\<close>

definition is_finite :: "pyfloat \<Rightarrow> bool" where
  "is_finite x = (case x of Fin r \<Rightarrow> True | _ \<Rightarrow> False)"

text \<open>
  Modelled from the spec: the dimensional-quantity library (\<^verbatim>\<open>pint\<close>) is missing from the
  repository. Sections 4.2 and 9 of the specification: every unit has a physical dimension
  and a linear scale factor relative to the base unit of its dimension; a quantity of the
  value in \<^verbatim>\<open>from_unit\<close> is constructed and its magnitude expressed in \<^verbatim>\<open>to_unit\<close> (look up
  and multiply) is returned as a float; the conversion fails when either identifier is
  unrecognized or the two units belong to different dimensions. A table lists each unit
  with its dimension and its factor; \<open>None\<close> is a raised exception.
\<close>

type_synonym unit_table = "(string \<times> string \<times> rat) list"

definition dimension_of :: "unit_table \<Rightarrow> string \<Rightarrow> string option" where
  "dimension_of units u = map_option fst (map_of units u)"

definition table_registry :: "unit_table \<Rightarrow> unit_registry" where
  "table_registry units v from_unit to_unit =
     (case map_of units from_unit of
        None \<Rightarrow> None
      | Some (d1, f1) \<Rightarrow>
          (case map_of units to_unit of
             None \<Rightarrow> None
           | Some (d2, f2) \<Rightarrow>
               if d1 \<noteq> d2 then None
               else (case bind_exn (py_mul v (PyFloat (float_lit f1)))
                            (\<lambda>m. py_truediv m (PyFloat (float_lit f2))) of
                       Inr (PyFloat r) \<Rightarrow> Some r
                     | _ \<Rightarrow> None)))"

text \<open>Two lengths and two masses of the catalogue, with metres and kilograms as base units.\<close>

definition sample_units :: unit_table where
  "sample_units =
     [(''meters'', (''[length]'', 1)), (''kilometers'', (''[length]'', 1000)),
      (''kilograms'', (''[mass]'', 1)), (''grams'', (''[mass]'', 1 / 1000))]"

definition sample_registry :: unit_registry where
  "sample_registry = table_registry sample_units"

text \<open>
  The round trip \<^verbatim>\<open>convert(convert(v, "celsius", "fahrenheit"), "fahrenheit", "celsius")\<close>;
  a failed inner call returns \<^verbatim>\<open>None\<close>, which is no number.
\<close>

definition round_trip :: "unit_registry \<Rightarrow> pyval \<Rightarrow> st_error + pyval" where
  "round_trip ureg v =
     convert_units ureg
       (case convert_units ureg v ''celsius'' ''fahrenheit'' of Inl e \<Rightarrow> PyOther | Inr f \<Rightarrow> f)
       ''fahrenheit'' ''celsius''"

section \<open>Session state\<close>

text \<open>
  \<^verbatim>\<open>st.session_state\<close> holds the keys \<^verbatim>\<open>'conversion_history'\<close> and \<^verbatim>\<open>'favorites'\<close>; a key that
  is not in the session is \<open>None\<close>. The favourites are a Python \<^verbatim>\<open>set\<close> of strings, kept here
  as the multiset of its elements, so that "no key twice" is a property to prove of the
  operations and not a consequence of the type.
\<close>

record history_item =
  timestamp :: string
  h_value :: pyval
  h_from_unit :: string
  h_to_unit :: string
  h_result :: pyval

record session_state =
  conversion_history :: "history_item list option"
  favorites :: "string multiset option"

definition new_session :: session_state where
  "new_session = \<lparr>conversion_history = None, favorites = None\<rparr>"

text \<open>
  The readers of \<^verbatim>\<open>main\<close>: \<^verbatim>\<open>st.session_state.get('favorites', set())\<close>, and the history
  that is shown only when the key is present and the list is not empty.
\<close>

definition history_of :: "session_state \<Rightarrow> history_item list" where
  "history_of st = (case conversion_history st of None \<Rightarrow> [] | Some h \<Rightarrow> h)"

definition favorites_of :: "session_state \<Rightarrow> string multiset" where
  "favorites_of st = (case favorites st of None \<Rightarrow> {#} | Some f \<Rightarrow> f)"

subsection \<open>\<^verbatim>\<open>save_conversion_history\<close>\<close>

text \<open>
  The first argument is the string that \<^verbatim>\<open>datetime.now().strftime(...)\<close> returns at the call.
  \<^verbatim>\<open>insert(0, item)\<close> puts the item at the front; \<^verbatim>\<open>pop()\<close> removes the last element.
\<close>

definition save_conversion_history ::
  "string \<Rightarrow> pyval \<Rightarrow> string \<Rightarrow> string \<Rightarrow> pyval \<Rightarrow> session_state \<Rightarrow> session_state" where
  "save_conversion_history now v from_unit to_unit res st =
     (let st1 = (if conversion_history st = None then st\<lparr>conversion_history := Some []\<rparr> else st);
          history_item = \<lparr>timestamp = now, h_value = v, h_from_unit = from_unit,
                          h_to_unit = to_unit, h_result = res\<rparr>;
          inserted = history_item # history_of st1
      in st1\<lparr>conversion_history :=
               Some (if 10 < length inserted then butlast inserted else inserted)\<rparr>)"

text \<open>One recorded conversion: clock reading, value, units and result.\<close>

type_synonym conversion = "string \<times> pyval \<times> string \<times> string \<times> pyval"

definition item_of :: "conversion \<Rightarrow> history_item" where
  "item_of c = (case c of (now, v, from_unit, to_unit, res) \<Rightarrow>
     \<lparr>timestamp = now, h_value = v, h_from_unit = from_unit, h_to_unit = to_unit, h_result = res\<rparr>)"

definition save_one :: "session_state \<Rightarrow> conversion \<Rightarrow> session_state" where
  "save_one st c = (case c of (now, v, from_unit, to_unit, res) \<Rightarrow>
     save_conversion_history now v from_unit to_unit res st)"

text \<open>Recording a list of conversions, in order.\<close>

definition record_conversions :: "session_state \<Rightarrow> conversion list \<Rightarrow> session_state" where
  "record_conversions st cs = foldl save_one st cs"

subsection \<open>\<^verbatim>\<open>toggle_favorite\<close>\<close>

text \<open>
  \<^verbatim>\<open>set.add\<close> leaves a set that has the element as it is; \<^verbatim>\<open>set.remove\<close> raises
  \<^verbatim>\<open>KeyError\<close> when the element is missing.
\<close>

definition set_add :: "'a \<Rightarrow> 'a multiset \<Rightarrow> 'a multiset" where
  "set_add x s = (if x \<in># s then s else add_mset x s)"

definition set_remove :: "'a \<Rightarrow> 'a multiset \<Rightarrow> py_exn + 'a multiset" where
  "set_remove x s = (if x \<in># s then Inr (s - {#x#}) else Inl KeyError)"

definition toggle_favorite :: "string \<Rightarrow> string \<Rightarrow> session_state \<Rightarrow> py_exn + session_state" where
  "toggle_favorite from_unit to_unit st =
     (let st1 = (if favorites st = None then st\<lparr>favorites := Some {#}\<rparr> else st);
          conversion_pair = from_unit @ ''->'' @ to_unit
      in if conversion_pair \<in># favorites_of st1
         then (case set_remove conversion_pair (favorites_of st1) of
                 Inl e \<Rightarrow> Inl e
               | Inr f \<Rightarrow> Inr (st1\<lparr>favorites := Some f\<rparr>))
         else Inr (st1\<lparr>favorites := Some (set_add conversion_pair (favorites_of st1))\<rparr>))"

text \<open>Pressing the favourite button for each pair of a list, stopping at an exception.\<close>

fun toggle_all :: "(string \<times> string) list \<Rightarrow> session_state \<Rightarrow> py_exn + session_state" where
  "toggle_all [] st = Inr st"
| "toggle_all ((from_unit, to_unit) # ps) st =
     (case toggle_favorite from_unit to_unit st of
        Inl e \<Rightarrow> Inl e
      | Inr st' \<Rightarrow> toggle_all ps st')"

subsection \<open>Reachable session states\<close>

text \<open>
  A session starts with neither key and changes only through the two operations.
\<close>

inductive reachable :: "session_state \<Rightarrow> bool" where
  fresh: "reachable new_session"
| saved: "reachable st \<Longrightarrow> reachable (save_conversion_history now v from_unit to_unit res st)"
| toggled: "reachable st \<Longrightarrow> toggle_favorite from_unit to_unit st = Inr st' \<Longrightarrow> reachable st'"

definition is_set :: "'a multiset \<Rightarrow> bool" where
  "is_set s = (\<forall>x. count s x \<le> 1)"

text \<open>Fifteen conversions, numbered 1 to 15 by their value.\<close>

definition fifteen_conversions :: "conversion list" where
  "fifteen_conversions =
     map (\<lambda>n. (''2025-01-01 12:00:00'', PyInt n, ''meters'', ''feet'', PyInt (n * 3)))
       [1, 2, 3, 4, 5, 6, 7, 8, 9, 10, 11, 12, 13, 14, 15]"

section \<open>Unit catalogue and search\<close>

text \<open>
  \<^verbatim>\<open>CATEGORIES\<close> in the order of the source. A string is the list of its UTF-8 bytes; the
  emoji that starts each category name is written byte by byte. Equality, concatenation and
  \<^verbatim>\<open>in\<close> of well-formed strings agree with those of their byte lists.
\<close>

definition CATEGORIES :: "(string \<times> string list) list" where
  "CATEGORIES =
     [([CHR 0xF0, CHR 0x9F, CHR 0x93, CHR 0x8F] @ '' Length'',
       [''meters'', ''kilometers'', ''miles'', ''feet'', ''inches'', ''centimeters'', ''yards'', ''nautical_miles'']),
      ([CHR 0xE2, CHR 0x9A, CHR 0x96, CHR 0xEF, CHR 0xB8, CHR 0x8F] @ '' Weight'',
       [''kilograms'', ''grams'', ''pounds'', ''ounces'', ''tons'', ''milligrams'']),
      ([CHR 0xF0, CHR 0x9F, CHR 0x8C, CHR 0xA1, CHR 0xEF, CHR 0xB8, CHR 0x8F] @ '' Temperature'',
       [''celsius'', ''fahrenheit'', ''kelvin'', ''rankine'']),
      ([CHR 0xE2, CHR 0x8F, CHR 0xB0] @ '' Time'',
       [''seconds'', ''minutes'', ''hours'', ''days'', ''weeks'', ''months'', ''years'']),
      ([CHR 0xF0, CHR 0x9F, CHR 0xA7, CHR 0x8A] @ '' Volume'',
       [''liters'', ''milliliters'', ''gallons'', ''cubic_meters'', ''cups'', ''tablespoons'', ''teaspoons'']),
      ([CHR 0xF0, CHR 0x9F, CHR 0x9A, CHR 0x80] @ '' Speed'',
       [''meters_per_second'', ''kilometers_per_hour'', ''miles_per_hour'', ''knots'']),
      ([CHR 0xF0, CHR 0x9F, CHR 0x92, CHR 0xBE] @ '' Data'',
       [''bytes'', ''kilobytes'', ''megabytes'', ''gigabytes'', ''terabytes'', ''petabytes'']),
      ([CHR 0xF0, CHR 0x9F, CHR 0x93, CHR 0xA1] @ '' Frequency'',
       [''hertz'', ''kilohertz'', ''megahertz'', ''gigahertz'', ''terahertz'']),
      ([CHR 0xF0, CHR 0x9F, CHR 0x94, CHR 0x8B] @ '' Energy'',
       [''joules'', ''kilojoules'', ''calories'', ''kilocalories'', ''watt_hours'', ''electron_volts'']),
      ([CHR 0xE2, CHR 0x9A, CHR 0xA1] @ '' Power'',
       [''watts'', ''kilowatts'', ''megawatts'', ''horsepower'', ''btu_per_hour'']),
      ([CHR 0xF0, CHR 0x9F, CHR 0x93, CHR 0x90] @ '' Area'',
       [''square_meters'', ''square_kilometers'', ''acres'', ''hectares'', ''square_feet'', ''square_yards'', ''square_miles'']),
      ([CHR 0xF0, CHR 0x9F, CHR 0x94, CHR 0xA9] @ '' Pressure'',
       [''pascals'', ''bar'', ''atmospheres'', ''psi'', ''torr'', ''millibars'']),
      ([CHR 0xF0, CHR 0x9F, CHR 0x8E, CHR 0x9B, CHR 0xEF, CHR 0xB8, CHR 0x8F] @ '' Electrical'',
       [''volts'', ''amperes'', ''ohms'', ''farads'', ''henries'', ''siemens'']),
      ([CHR 0xF0, CHR 0x9F, CHR 0x8C, CHR 0x80] @ '' Torque'',
       [''newton_meters'', ''pound_feet'', ''kilogram_force_meters'']),
      ([CHR 0xF0, CHR 0x9F, CHR 0x93, CHR 0x89] @ '' Density'',
       [''kilograms_per_cubic_meter'', ''grams_per_cubic_centimeter'', ''pounds_per_cubic_foot'']),
      ([CHR 0xF0, CHR 0x9F, CHR 0x92, CHR 0xA8] @ '' Airflow'',
       [''cubic_meters_per_second'', ''cubic_feet_per_minute'', ''liters_per_minute'']),
      ([CHR 0xF0, CHR 0x9F, CHR 0x92, CHR 0xB0] @ '' Currency'',
       [''USD'', ''EUR'', ''GBP'', ''JPY'', ''AUD'', ''CAD'', ''CHF'', ''CNY''])]"

text \<open>
  \<^verbatim>\<open>needle in hay\<close> on strings: the needle occurs at some position of the hay.
\<close>

fun py_in :: "'a list \<Rightarrow> 'a list \<Rightarrow> bool" where
  "py_in needle [] = (needle = [])"
| "py_in needle (c # hay) = (prefix needle (c # hay) \<or> py_in needle hay)"

text \<open>
  The search of \<^verbatim>\<open>main\<close>: the text of the search box is lower-cased once, and the dict
  comprehension keeps, in the order of \<^verbatim>\<open>CATEGORIES\<close>, the items whose lower-cased key or one
  of whose lower-cased units contains it. \<^verbatim>\<open>str.lower\<close> is Unicode lower-casing, which the
  model takes as the parameter \<open>lower\<close>.
\<close>

definition filtered_categories :: "(string \<Rightarrow> string) \<Rightarrow> string \<Rightarrow> (string \<times> string list) list" where
  "filtered_categories lower text_input =
     (let search_query = lower text_input
      in filter (\<lambda>(k, v). py_in search_query (lower k)
                          \<or> list_ex (\<lambda>unit. py_in search_query (lower unit)) v) CATEGORIES)"

text \<open>The specification's "substring": the query with some text before and after it.\<close>

definition substring_of :: "'a list \<Rightarrow> 'a list \<Rightarrow> bool" where
  "substring_of q s = (\<exists>before after. s = before @ q @ after)"

text \<open>
  Lower-casing of the letters A to Z, which is what \<^verbatim>\<open>str.lower\<close> does to a string whose
  other characters have no case, as the names of the catalogue and the query below.
\<close>

definition ascii_lower :: "string \<Rightarrow> string" where
  "ascii_lower s =
     map (\<lambda>c. case map_of (zip ''ABCDEFGHIJKLMNOPQRSTUVWXYZ'' ''abcdefghijklmnopqrstuvwxyz'') c of
                 None \<Rightarrow> c | Some l \<Rightarrow> l) s"

section \<open>History: bounded, newest first\<close>

lemma history_of_save:
  "history_of (save_conversion_history now v from_unit to_unit res st) =
     (let inserted = item_of (now, v, from_unit, to_unit, res) # history_of st
      in if 10 < length inserted then butlast inserted else inserted)"
  by (simp add: save_conversion_history_def history_of_def item_of_def Let_def
      split: option.splits)

lemma favorites_of_save [simp]:
  "favorites_of (save_conversion_history now v from_unit to_unit res st) = favorites_of st"
  by (simp add: save_conversion_history_def favorites_of_def Let_def)

lemma history_of_save_one:
  "length (history_of st) \<le> 10 \<Longrightarrow> history_of (save_one st c) = take 10 (item_of c # history_of st)"
proof -
  assume le: "length (history_of st) \<le> 10"
  obtain now v f t r where c: "c = (now, v, f, t, r)"
    by (cases c) auto
  show ?thesis
  proof (cases "length (history_of st) = 10")
    case True
    then have "butlast (history_of st) = take 9 (history_of st)"
      by (simp add: butlast_conv_take)
    moreover from True have "history_of st \<noteq> []"
      by auto
    ultimately show ?thesis
      using True by (simp add: c save_one_def history_of_save Let_def take_Cons')
  next
    case False
    with le have "length (history_of st) < 10" by simp
    then show ?thesis
      by (simp add: c save_one_def history_of_save Let_def)
  qed
qed

lemma history_of_record_conversions:
  "length (history_of st) \<le> 10 \<Longrightarrow>
   history_of (record_conversions st cs) = take 10 (rev (map item_of cs) @ history_of st)"
proof (induction cs arbitrary: st)
  case Nil
  then show ?case by (simp add: record_conversions_def)
next
  case (Cons c cs)
  have step: "history_of (save_one st c) = take 10 (item_of c # history_of st)"
    using Cons.prems by (rule history_of_save_one)
  then have len: "length (history_of (save_one st c)) \<le> 10" by simp
  have "history_of (record_conversions st (c # cs)) =
        history_of (record_conversions (save_one st c) cs)"
    by (simp add: record_conversions_def)
  also have "\<dots> = take 10 (rev (map item_of cs) @ take 10 (item_of c # history_of st))"
    using Cons.IH [OF len] step by simp
  also have "\<dots> = take 10 (rev (map item_of (c # cs)) @ history_of st)"
    by (simp add: take_Cons' min_def)
  finally show ?case .
qed

lemma history_of_new_session [simp]: "history_of new_session = []"
  by (simp add: history_of_def new_session_def)

lemma favorites_of_new_session [simp]: "favorites_of new_session = {#}"
  by (simp add: favorites_of_def new_session_def)

lemma history_of_toggle:
  "toggle_favorite from_unit to_unit st = Inr st' \<Longrightarrow> history_of st' = history_of st"
  by (auto simp: toggle_favorite_def history_of_def Let_def set_remove_def
      split: if_splits sum.splits)

lemma reachable_history_bound: "reachable st \<Longrightarrow> length (history_of st) \<le> 10"
proof (induction rule: reachable.induct)
  case fresh
  show ?case by simp
next
  case (saved st now v from_unit to_unit res)
  then show ?case
    by (simp add: history_of_save Let_def)
next
  case (toggled st from_unit to_unit st')
  then show ?case
    by (simp add: history_of_toggle)
qed

text \<open>
  Claim C4. The history has at most 10 entries in every reachable session state and is
  ordered newest first: \<^verbatim>\<open>save_conversion_history\<close> puts the new entry at the front and, when
  the list then has more than 10 entries, removes exactly the last (oldest) one; so a new
  session that records a list of conversions holds the last 10 of them, newest first, and
  after 15 recorded conversions the history has length 10 and its first element is the 15th.
\<close>

theorem history_bounded_newest_first:
  "(reachable st \<longrightarrow> length (history_of st) \<le> 10)
   \<and> history_of (save_conversion_history now v from_unit to_unit res st) =
       (if 10 < length (item_of (now, v, from_unit, to_unit, res) # history_of st)
        then item_of (now, v, from_unit, to_unit, res) # butlast (history_of st)
        else item_of (now, v, from_unit, to_unit, res) # history_of st)
   \<and> history_of (record_conversions new_session cs) = take 10 (rev (map item_of cs))
   \<and> (length cs = 15 \<longrightarrow>
        length (history_of (record_conversions new_session cs)) = 10
        \<and> hd (history_of (record_conversions new_session cs)) = item_of (cs ! 14))"
proof -
  have all: "history_of (record_conversions new_session cs) = take 10 (rev (map item_of cs))"
    using history_of_record_conversions [of new_session cs] by simp
  have step: "history_of (save_conversion_history now v from_unit to_unit res st) =
       (if 10 < length (item_of (now, v, from_unit, to_unit, res) # history_of st)
        then item_of (now, v, from_unit, to_unit, res) # butlast (history_of st)
        else item_of (now, v, from_unit, to_unit, res) # history_of st)"
    by (auto simp: history_of_save Let_def)
  have fifteen: "length (history_of (record_conversions new_session cs)) = 10
        \<and> hd (history_of (record_conversions new_session cs)) = item_of (cs ! 14)"
    if len: "length cs = 15"
  proof -
    from len have ne: "cs \<noteq> []" by auto
    have "hd (take 10 (rev (map item_of cs))) = hd (rev (map item_of cs))"
      by (simp add: hd_take)
    also have "\<dots> = item_of (last cs)"
      using ne by (simp add: hd_rev last_map)
    also have "last cs = cs ! 14"
      using ne len by (simp add: last_conv_nth)
    finally show ?thesis
      using len by (simp add: all)
  qed
  show ?thesis
    using all step fifteen reachable_history_bound by blast
qed

theorem history_bounded_newest_first_witness:
  "reachable new_session \<and> length (history_of new_session) \<le> 10
   \<and> length fifteen_conversions = 15
   \<and> length (history_of (record_conversions new_session fifteen_conversions)) = 10
   \<and> hd (history_of (record_conversions new_session fifteen_conversions)) =
       item_of (''2025-01-01 12:00:00'', PyInt 15, ''meters'', ''feet'', PyInt 45)"
proof -
  have len: "length fifteen_conversions = 15"
    by (simp add: fifteen_conversions_def)
  have last: "fifteen_conversions ! 14 =
      (''2025-01-01 12:00:00'', PyInt 15, ''meters'', ''feet'', PyInt 45)"
    by (simp add: fifteen_conversions_def)
  note inst = history_bounded_newest_first [of new_session "[]" PyOther "[]" "[]" PyOther
      fifteen_conversions]
  from inst reachable.fresh have bound: "length (history_of new_session) \<le> 10"
    by blast
  from inst len have "length (history_of (record_conversions new_session fifteen_conversions)) = 10
      \<and> hd (history_of (record_conversions new_session fifteen_conversions)) =
          item_of (fifteen_conversions ! 14)"
    by blast
  then show ?thesis
    using bound reachable.fresh len by (simp only: last simp_thms)
qed

section \<open>Favourites\<close>

lemma toggle_favorite_result:
  "toggle_favorite from_unit to_unit st =
     Inr (st\<lparr>favorites := Some
       (if from_unit @ ''->'' @ to_unit \<in># favorites_of st
        then favorites_of st - {#from_unit @ ''->'' @ to_unit#}
        else add_mset (from_unit @ ''->'' @ to_unit) (favorites_of st))\<rparr>)"
  by (cases "favorites st")
    (simp_all add: toggle_favorite_def favorites_of_def set_remove_def set_add_def Let_def)

lemma favorites_of_update [simp]: "favorites_of (st\<lparr>favorites := Some f\<rparr>) = f"
  by (simp add: favorites_of_def)

lemma is_set_toggled:
  assumes "is_set s"
  shows "is_set (if x \<in># s then s - {#x#} else add_mset x s)"
proof (cases "x \<in># s")
  case True
  have "count (s - {#x#}) y \<le> 1" for y
    using assms [unfolded is_set_def, rule_format, of y] by simp
  with True show ?thesis by (simp add: is_set_def)
next
  case False
  then have "count s x = 0" by (simp add: not_in_iff)
  then have "count (add_mset x s) y \<le> 1" for y
    using assms [unfolded is_set_def, rule_format, of y] by (cases "y = x") simp_all
  with False show ?thesis by (simp add: is_set_def)
qed

lemma reachable_is_set: "reachable st \<Longrightarrow> is_set (favorites_of st)"
proof (induction rule: reachable.induct)
  case fresh
  show ?case by (simp add: is_set_def)
next
  case (saved st now v from_unit to_unit res)
  then show ?case by simp
next
  case (toggled st from_unit to_unit st')
  from toggled.hyps(2) have "favorites_of st' =
      (if from_unit @ ''->'' @ to_unit \<in># favorites_of st
       then favorites_of st - {#from_unit @ ''->'' @ to_unit#}
       else add_mset (from_unit @ ''->'' @ to_unit) (favorites_of st))"
    unfolding toggle_favorite_result by (auto simp del: favorites_of_update simp: favorites_of_update)
  with toggled.IH show ?case
    by (simp only: is_set_toggled)
qed

text \<open>
  Claim C7. For a session whose favourites are a set, \<^verbatim>\<open>toggle_favorite\<close> with a pair of
  units forms the key \<open>from_unit @ ''->'' @ to_unit\<close>, removes it when it is among the
  favourites and inserts it otherwise, and raises nothing; two calls with the same pair
  leave the favourites as they were.
\<close>

theorem toggle_favorite_twice:
  assumes "is_set (favorites_of st)"
  shows "toggle_favorite from_unit to_unit st =
           Inr (st\<lparr>favorites := Some
             (if from_unit @ ''->'' @ to_unit \<in># favorites_of st
              then favorites_of st - {#from_unit @ ''->'' @ to_unit#}
              else add_mset (from_unit @ ''->'' @ to_unit) (favorites_of st))\<rparr>)
         \<and> toggle_all [(from_unit, to_unit), (from_unit, to_unit)] st =
           Inr (st\<lparr>favorites := Some (favorites_of st)\<rparr>)
         \<and> favorites_of (st\<lparr>favorites := Some (favorites_of st)\<rparr>) = favorites_of st"
proof (cases "from_unit @ ''->'' @ to_unit \<in># favorites_of st")
  case True
  from assms have "count (favorites_of st) (from_unit @ ''->'' @ to_unit) \<le> 1"
    by (simp add: is_set_def)
  with True have "count (favorites_of st) (from_unit @ ''->'' @ to_unit) = 1"
    by (metis count_greater_eq_one_iff le_antisym)
  then have gone: "from_unit @ ''->'' @ to_unit \<notin># favorites_of st - {#from_unit @ ''->'' @ to_unit#}"
    by (simp add: not_in_iff)
  show ?thesis
    using True gone by (simp add: toggle_favorite_result)
next
  case False
  then show ?thesis
    by (simp add: toggle_favorite_result)
qed

theorem toggle_favorite_twice_witness:
  "is_set (favorites_of new_session)
   \<and> toggle_favorite ''meters'' ''feet'' new_session =
       Inr (new_session\<lparr>favorites := Some {#''meters->feet''#}\<rparr>)
   \<and> toggle_all [(''meters'', ''feet''), (''meters'', ''feet'')] new_session =
       Inr (new_session\<lparr>favorites := Some {#}\<rparr>)
   \<and> favorites_of (new_session\<lparr>favorites := Some {#}\<rparr>) = favorites_of new_session"
proof -
  have h: "is_set (favorites_of new_session)"
    by (simp add: is_set_def)
  show ?thesis
    using h toggle_favorite_twice [OF h, of "''meters''" "''feet''"]
    by (simp add: toggle_favorite_result)
qed

text \<open>
  Claim C8. In every session state that is reachable from a new session by
  \<^verbatim>\<open>toggle_favorite\<close> (and \<^verbatim>\<open>save_conversion_history\<close>) no key occurs more than once among
  the favourites.
\<close>

theorem favorites_no_duplicates:
  "reachable st \<Longrightarrow> count (favorites_of st) key \<le> 1"
  using reachable_is_set [of st] by (simp add: is_set_def)

theorem favorites_no_duplicates_witness:
  "reachable (new_session\<lparr>favorites := Some {#''meters->feet''#}\<rparr>)
   \<and> count (favorites_of (new_session\<lparr>favorites := Some {#''meters->feet''#}\<rparr>))
        ''meters->feet'' \<le> 1"
proof -
  have "toggle_favorite ''meters'' ''feet'' new_session =
      Inr (new_session\<lparr>favorites := Some {#''meters->feet''#}\<rparr>)"
    by (simp add: toggle_favorite_result)
  with reachable.fresh have r: "reachable (new_session\<lparr>favorites := Some {#''meters->feet''#}\<rparr>)"
    by (rule reachable.toggled)
  show ?thesis
    using r favorites_no_duplicates [OF r, of "''meters->feet''"] by simp
qed

section \<open>Rounding\<close>

lemma ilog2_bounds:
  assumes "0 < q"
  shows "2 powi (ilog2 q) \<le> q" and "q < 2 powi (ilog2 q + 1)"
proof -
  have "2 powi (ilog2 q) \<le> q \<and> q < 2 powi (ilog2 q + 1)"
  proof (cases "1 \<le> q")
    case True
    define n where "n = \<lfloor>q\<rfloor>"
    have n1: "1 \<le> n" using True by (simp add: n_def le_floor_iff)
    then have n0: "0 < n" by simp
    have b: "2 ^ nat (bitlen n - 1) \<le> n" "n < 2 ^ nat (bitlen n)"
      using bitlen_bounds [OF n0] by auto
    have bl: "1 \<le> bitlen n" using n0 by (simp add: bitlen_alt_def)
    have e: "ilog2 q = bitlen n - 1" using True by (simp add: ilog2_def n_def)
    have "(2::rat) powi (bitlen n - 1) = of_int (2 ^ nat (bitlen n - 1))"
      using bl by (simp add: power_int_def)
    also have "\<dots> \<le> of_int n" using b(1) by (simp only: of_int_le_iff)
    also have "\<dots> \<le> q" by (simp add: n_def)
    finally have lo: "2 powi (ilog2 q) \<le> q" by (simp add: e)
    have "n + 1 \<le> 2 ^ nat (bitlen n)" using b(2) by simp
    then have "(of_int (n + 1) :: rat) \<le> of_int (2 ^ nat (bitlen n))"
      by (simp only: of_int_le_iff)
    moreover have "q < of_int (n + 1)" using floor_correct [of q] by (simp add: n_def)
    moreover have "(2::rat) powi (bitlen n) = of_int (2 ^ nat (bitlen n))"
      using bl by (simp add: power_int_def)
    ultimately have "q < 2 powi (ilog2 q + 1)" by (simp add: e)
    with lo show ?thesis by simp
  next
    case False
    define y where "y = 1 / q"
    define n where "n = \<lceil>y\<rceil> - 1"
    have y1: "1 < y" using False assms by (simp add: y_def)
    have ny: "of_int n < y" "y \<le> of_int n + 1"
      using ceiling_correct [of y] by (simp_all add: n_def)
    have n1: "1 \<le> n" using y1 by (simp add: n_def less_ceiling_iff)
    then have n0: "0 < n" by simp
    have b: "2 ^ nat (bitlen n - 1) \<le> n" "n < 2 ^ nat (bitlen n)"
      using bitlen_bounds [OF n0] by auto
    have bl: "1 \<le> bitlen n" using n0 by (simp add: bitlen_alt_def)
    have e: "ilog2 q = - bitlen n" using False by (simp add: ilog2_def n_def y_def)
    have q: "q = 1 / y" using assms by (simp add: y_def)
    have "n + 1 \<le> 2 ^ nat (bitlen n)" using b(2) by simp
    then have "(of_int (n + 1) :: rat) \<le> of_int (2 ^ nat (bitlen n))"
      by (simp only: of_int_le_iff)
    with ny(2) have "y \<le> 2 ^ nat (bitlen n)" by simp
    then have "1 / 2 ^ nat (bitlen n) \<le> 1 / y"
      using y1 by (simp add: field_simps)
    moreover have "(2::rat) powi (- bitlen n) = 1 / 2 ^ nat (bitlen n)"
      using bl by (simp add: power_int_def field_simps)
    ultimately have "2 powi (- bitlen n) \<le> q" using q by simp
    then have lo: "2 powi (ilog2 q) \<le> q" by (simp only: e)
    have "(2::rat) ^ nat (bitlen n - 1) \<le> of_int n"
      using b(1) of_int_le_iff [of "2 ^ nat (bitlen n - 1)" n, where ?'a = rat] by simp
    with ny(1) have "2 ^ nat (bitlen n - 1) < y" by linarith
    then have "1 / y < 1 / 2 ^ nat (bitlen n - 1)"
      using y1 by (simp add: field_simps)
    moreover have "(2::rat) powi (- bitlen n + 1) = 1 / 2 ^ nat (bitlen n - 1)"
      using bl by (simp add: power_int_def field_simps nat_diff_distrib)
    ultimately have "q < 2 powi (- bitlen n + 1)" using q by simp
    then have "q < 2 powi (ilog2 q + 1)" by (simp only: e)
    with lo show ?thesis by simp
  qed
  then show "2 powi (ilog2 q) \<le> q" and "q < 2 powi (ilog2 q + 1)" by simp_all
qed

lemma ilog2_unique:
  assumes "0 < q" "2 powi e \<le> q" "q < 2 powi (e + 1)"
  shows "ilog2 q = e"
proof (rule ccontr)
  assume ne: "ilog2 q \<noteq> e"
  note b = ilog2_bounds [OF assms(1)]
  show False
  proof (cases "ilog2 q < e")
    case True
    then have "ilog2 q + 1 \<le> e" by simp
    then have "(2::rat) powi (ilog2 q + 1) \<le> 2 powi e"
      by (intro power_int_increasing) simp_all
    with b(2) assms(2) show False by simp
  next
    case False
    with ne have "e + 1 \<le> ilog2 q" by simp
    then have "(2::rat) powi (e + 1) \<le> 2 powi (ilog2 q)"
      by (intro power_int_increasing) simp_all
    with b(1) assms(3) show False by simp
  qed
qed

lemma round_half_even_error: "\<bar>of_int (round_half_even x) - x\<bar> \<le> 1 / 2"
proof -
  define f where "f = \<lfloor>x\<rfloor>"
  have fl: "of_int f \<le> x" "x < of_int f + 1"
    using floor_correct [of x] by (simp_all add: f_def)
  have r: "round_half_even x =
      (if x - of_int f < 1 / 2 then f else if 1 / 2 < x - of_int f then f + 1
       else if even f then f else f + 1)"
    by (simp add: round_half_even_def Let_def f_def)
  show ?thesis
  proof (cases "x - of_int f < 1 / 2")
    case True
    with fl r show ?thesis by (simp add: abs_if)
  next
    case False
    note nlt = this
    show ?thesis
    proof (cases "1 / 2 < x - of_int f")
      case True
      with nlt r have "round_half_even x = f + 1" by simp
      with fl True show ?thesis by (simp add: abs_if)
    next
      case False
      with nlt have eq: "x - of_int f = 1 / 2" by simp
      then have x: "x = of_int f + 1 / 2" by simp
      from r eq have "round_half_even x = f \<or> round_half_even x = f + 1" by simp
      then show ?thesis by (auto simp: x)
    qed
  qed
qed

lemma round_half_even_eqI:
  assumes "\<bar>x - of_int m\<bar> < 1 / 2"
  shows "round_half_even x = m"
proof -
  have "\<bar>of_int (round_half_even x) - x\<bar> \<le> 1 / 2" by (rule round_half_even_error)
  with assms have "\<bar>(of_int (round_half_even x) :: rat) - of_int m\<bar> < 1" by linarith
  then have "\<bar>(of_int (round_half_even x - m) :: rat)\<bar> < 1" by simp
  then have "\<bar>round_half_even x - m\<bar> < 1"
    by (metis of_int_abs of_int_less_1_iff)
  then show ?thesis by simp
qed


lemma round64_pos:
  assumes "0 < q" "(2::rat) powi e \<le> q" "q < (2::rat) powi (e + 1)"
    and "p = max (e - 52) (- 1074)"
    and "\<bar>q / (2::rat) powi p - of_int m\<bar> < 1 / 2"
    and "of_int m * (2::rat) powi p < 2 ^ 1024"
  shows "round64 q = Fin (of_int m * 2 powi p)"
proof -
  have aq: "\<bar>q\<bar> = q" using assms(1) by simp
  have e: "ilog2 q = e"
    using assms(1-3) by (rule ilog2_unique)
  have pe: "max (ilog2 q - 52) (- 1074) = p"
    using e assms(4) by simp
  have m: "round_half_even (q / 2 powi p) = m"
    using assms(5) by (rule round_half_even_eqI)
  have nz: "q \<noteq> 0" using assms(1) by simp
  show ?thesis
    unfolding round64_def Let_def aq pe m using nz assms(1,6) by simp
qed

lemma round64_minus: "round64 (- q) = fneg (round64 q)"
  by (simp add: round64_def Let_def)

lemma round64_error:
  assumes "\<bar>q\<bar> \<le> 2 ^ 1023"
  shows "\<exists>r. round64 q = Fin r \<and> \<bar>r - q\<bar> \<le> \<bar>q\<bar> / 2 ^ 53 + 1 / 2 ^ 1075"
proof (cases "q = 0")
  case True
  then show ?thesis by (simp add: round64_def)
next
  case False
  define a where "a = \<bar>q\<bar>"
  define e where "e = ilog2 a"
  define p where "p = max (e - 52) (- 1074)"
  define m where "m = round_half_even (a / 2 powi p)"
  define r where "r = of_int m * (2::rat) powi p"
  have a0: "0 < a" using False by (simp add: a_def)
  have pp: "0 < (2::rat) powi p" by (simp add: power_int_def)
  have eb: "2 powi e \<le> a" "a < 2 powi (e + 1)"
    using ilog2_bounds [OF a0] by (simp_all add: e_def)
  have "\<bar>of_int m - a / 2 powi p\<bar> \<le> 1 / 2"
    unfolding m_def by (rule round_half_even_error)
  then have "\<bar>of_int m - a / 2 powi p\<bar> * 2 powi p \<le> 1 / 2 * 2 powi p"
    using pp by (intro mult_right_mono) simp_all
  moreover have "\<bar>of_int m - a / 2 powi p\<bar> * 2 powi p = \<bar>r - a\<bar>"
  proof -
    have "\<bar>of_int m - a / 2 powi p\<bar> * 2 powi p = \<bar>(of_int m - a / 2 powi p) * 2 powi p\<bar>"
      using pp by (simp add: abs_mult)
    also have "(of_int m - a / 2 powi p) * 2 powi p = r - a"
      using pp by (simp add: r_def field_simps)
    finally show ?thesis .
  qed
  ultimately have err: "\<bar>r - a\<bar> \<le> 2 powi p / 2" by simp
  have half: "(2::rat) powi p / 2 = 2 powi (p - 1)"
    by (simp add: power_int_diff)
  have bound: "2 powi p / 2 \<le> a / 2 ^ 53 + 1 / 2 ^ 1075"
  proof (cases "- 1074 \<le> e - 52")
    case True
    then have "p = e - 52" by (simp add: p_def)
    then have "(2::rat) powi p / 2 = 2 powi e / 2 ^ 53"
      by (simp add: power_int_diff)
    also have "\<dots> \<le> a / 2 ^ 53"
      using eb(1) by (simp add: divide_right_mono)
    finally show ?thesis by simp
  next
    case False
    then have "p = - 1074" by (simp add: p_def)
    then have "(2::rat) powi p / 2 = 1 / 2 ^ 1075"
      by (simp add: power_int_minus field_simps)
    then show ?thesis using a0 by simp
  qed
  have e_le: "e \<le> 1023"
  proof (rule ccontr)
    assume "\<not> e \<le> 1023"
    then have "1024 \<le> e" by simp
    then have "(2::rat) powi 1024 \<le> 2 powi e"
      by (intro power_int_increasing) simp_all
    with eb(1) assms show False by (simp add: a_def)
  qed
  have p_le: "p \<le> 971" using e_le by (simp add: p_def)
  then have "(2::rat) powi p \<le> 2 powi 971"
    by (intro power_int_increasing) simp_all
  then have "2 powi p / 2 \<le> (2::rat) ^ 970" by simp
  with err have "r \<le> a + 2 ^ 970" by linarith
  with assms have r_lt: "r < 2 ^ 1024" by (simp add: a_def)
  have rdef: "round64 q = Fin (if 0 < q then r else - r)"
    using False r_lt
    by (simp add: round64_def Let_def a_def [symmetric] e_def [symmetric] p_def [symmetric]
        m_def [symmetric] r_def [symmetric])
  have "\<bar>(if 0 < q then r else - r) - q\<bar> = \<bar>r - a\<bar>"
    using False by (auto simp: a_def abs_if)
  with err bound rdef show ?thesis
    by (auto simp: a_def)
qed

lemma round64_5: "round64 5 = Fin 5"
  using round64_pos [of 5 2 "- 50" "5 * 2 ^ 50"] by simp

lemma round64_9: "round64 9 = Fin 9"
  using round64_pos [of 9 3 "- 49" "9 * 2 ^ 49"] by simp


lemma float_of_int_5 [simp]: "float_of_int 5 = Inr (Fin 5)"
  by (simp add: float_of_int_def round64_5)

lemma float_of_int_9 [simp]: "float_of_int 9 = Inr (Fin 9)"
  by (simp add: float_of_int_def round64_9)

lemma convert_units_temperature:
  "convert_units ureg (PyFloat x) (unit_name f) (unit_name t) =
     Inr (PyFloat (spec_from_kelvin t (spec_to_kelvin f x)))"
  by (cases f; cases t)
    (simp_all add: convert_units_def isinstance_int_float_def bind_exn_def fdiv_def)

section \<open>Roundings of the conversions below\<close>

text \<open>
  Each lemma gives the exponent and the mantissa of the rounded value to \<open>round64_pos\<close>.
\<close>

lemma round64_lit_273_15: "round64 (5463 / 20) = Fin (2402652809016115 / 8796093022208)"
  using round64_pos [of "5463 / 20" 8 "- 44" 4805305618032230] by simp

lemma round64_lit_459_67: "round64 (45967 / 100) = Fin (8086600159036703 / 17592186044416)"
  using round64_pos [of "45967 / 100" 8 "- 44" 8086600159036703] by simp

lemma round64_lit_373_15: "round64 (7463 / 20) = Fin (3282262111236915 / 8796093022208)"
  using round64_pos [of "7463 / 20" 8 "- 44" 6564524222473830] by simp

lemma round64_c2f_0_add: "round64 (2402652809016115 / 8796093022208) = Fin (2402652809016115 / 8796093022208)"
  using round64_pos [of "2402652809016115 / 8796093022208" 8 "- 44" 4805305618032230] by simp

lemma round64_c2f_0_mul: "round64 (21623875281145035 / 8796093022208) = Fin (5405968820286259 / 2199023255552)"
  using round64_pos [of "21623875281145035 / 8796093022208" 11 "- 41" 5405968820286259] by simp

lemma round64_c2f_0_div: "round64 (5405968820286259 / 10995116277760) = Fin (4324775056229007 / 8796093022208)"
  using round64_pos [of "5405968820286259 / 10995116277760" 8 "- 44" 8649550112458014] by simp

lemma round64_c2f_0_sub: "round64 (562949953421311 / 17592186044416) = Fin (562949953421311 / 17592186044416)"
  using round64_pos [of "562949953421311 / 17592186044416" 4 "- 48" 9007199254740976] by simp

lemma round64_c2k_100_add: "round64 (3282262111236915 / 8796093022208) = Fin (3282262111236915 / 8796093022208)"
  using round64_pos [of "3282262111236915 / 8796093022208" 8 "- 44" 6564524222473830] by simp

lemma round64_f2c_32_add: "round64 (8649550112458015 / 17592186044416) = Fin (8649550112458015 / 17592186044416)"
  using round64_pos [of "8649550112458015 / 17592186044416" 8 "- 44" 8649550112458015] by simp

lemma round64_f2c_32_mul: "round64 (43247750562290075 / 17592186044416) = Fin (5405968820286259 / 2199023255552)"
  using round64_pos [of "43247750562290075 / 17592186044416" 11 "- 41" 5405968820286259] by simp

lemma round64_f2c_32_div: "round64 (5405968820286259 / 19791209299968) = Fin (2402652809016115 / 8796093022208)"
  using round64_pos [of "5405968820286259 / 19791209299968" 8 "- 44" 4805305618032230] by simp

lemma round64_32: "round64 (32) = Fin (32)"
  using round64_pos [of "32" 5 "- 47" 4503599627370496] by simp

lemma round64_100: "round64 (100) = Fin (100)"
  using round64_pos [of "100" 6 "- 46" 7036874417766400] by simp

lemma round64_0 [simp]: "round64 0 = Fin 0"
  by (simp add: round64_def)

lemma float_of_int_0 [simp]: "float_of_int 0 = Inr (Fin 0)"
  by (simp add: float_of_int_def)

lemma float_of_int_32 [simp]: "float_of_int 32 = Inr (Fin 32)"
  by (simp add: float_of_int_def round64_32)

lemma float_of_int_100 [simp]: "float_of_int 100 = Inr (Fin 100)"
  by (simp add: float_of_int_def round64_100)

lemmas temperature_eval =
  convert_units_def isinstance_int_float_def bind_exn_def fdiv_def fsub_def float_lit_def
  round64_lit_273_15 round64_lit_459_67 round64_lit_373_15

lemma c2f_0: "convert_units ureg (PyFloat (Fin 0)) ''celsius'' ''fahrenheit'' =
    Inr (PyFloat (Fin (32 - 1 / 2 ^ 44)))"
  by (simp add: temperature_eval round64_c2f_0_add round64_c2f_0_mul round64_c2f_0_div
      round64_c2f_0_sub)

lemma c2f_0_int: "convert_units ureg (PyInt 0) ''celsius'' ''fahrenheit'' =
    Inr (PyFloat (Fin (32 - 1 / 2 ^ 44)))"
  by (simp add: temperature_eval round64_c2f_0_add round64_c2f_0_mul round64_c2f_0_div
      round64_c2f_0_sub)

lemma c2k_100: "convert_units ureg (PyFloat (Fin 100)) ''celsius'' ''kelvin'' =
    Inr (PyFloat (float_lit (37315 / 100)))"
  by (simp add: temperature_eval round64_c2k_100_add)

lemma c2k_100_int: "convert_units ureg (PyInt 100) ''celsius'' ''kelvin'' =
    Inr (PyFloat (float_lit (37315 / 100)))"
  by (simp add: temperature_eval round64_c2k_100_add)

lemma f2c_32: "convert_units ureg (PyFloat (Fin 32)) ''fahrenheit'' ''celsius'' =
    Inr (PyFloat (Fin 0))"
  by (simp add: temperature_eval round64_f2c_32_add round64_f2c_32_mul round64_f2c_32_div)

lemma f2c_32_int: "convert_units ureg (PyInt 32) ''fahrenheit'' ''celsius'' =
    Inr (PyFloat (Fin 0))"
  by (simp add: temperature_eval round64_f2c_32_add round64_f2c_32_mul round64_f2c_32_div)


section \<open>Temperature conversions\<close>

lemma convert_units_to_other:
  assumes "to_unit \<noteq> ''celsius''" "to_unit \<noteq> ''fahrenheit''" "to_unit \<noteq> ''rankine''"
  shows "convert_units ureg (PyFloat x) (unit_name f) to_unit = Inr (PyFloat (spec_to_kelvin f x))"
  using assms by (cases f)
    (simp_all add: convert_units_def isinstance_int_float_def bind_exn_def fdiv_def)

lemma not_finite_cases: "\<not> is_finite x \<Longrightarrow> x = PosInf \<or> x = NegInf \<or> x = NaN"
  by (cases x) (simp_all add: is_finite_def)

lemma spec_to_kelvin_not_finite: "\<not> is_finite x \<Longrightarrow> spec_to_kelvin f x = x"
  by (cases f; drule not_finite_cases)
    (auto simp: float_lit_def round64_lit_273_15 round64_lit_459_67 signed_inf_def)

lemma spec_from_kelvin_not_finite: "\<not> is_finite x \<Longrightarrow> spec_from_kelvin t x = x"
  by (cases t; drule not_finite_cases)
    (auto simp: float_lit_def round64_lit_273_15 round64_lit_459_67 signed_inf_def fsub_def)

lemma convert_units_not_finite:
  assumes "\<not> is_finite x"
  shows "convert_units ureg (PyFloat x) (unit_name f) to_unit = Inr (PyFloat x)"
proof (cases "to_unit = ''celsius'' \<or> to_unit = ''fahrenheit'' \<or> to_unit = ''rankine''")
  case True
  then obtain t where t: "to_unit = unit_name t"
    by (metis unit_name.simps(1,2,4))
  show ?thesis
    unfolding t convert_units_temperature
    using assms by (simp add: spec_to_kelvin_not_finite spec_from_kelvin_not_finite)
next
  case False
  then show ?thesis
    using assms by (simp add: convert_units_to_other spec_to_kelvin_not_finite)
qed

lemma invalid_number_iff:
  "convert_units ureg v from_unit to_unit = Inl Please_enter_a_valid_number \<longleftrightarrow> v = PyOther"
  by (cases v)
    (auto simp: convert_units_def isinstance_int_float_def split: sum.splits option.splits)

lemma convert_units_other_branch:
  assumes "isinstance_int_float v"
    and "from_unit \<notin> {''celsius'', ''fahrenheit'', ''kelvin'', ''rankine''}"
  shows "convert_units ureg v from_unit to_unit =
     (case ureg v from_unit to_unit of
        None \<Rightarrow> Inl (Invalid_unit_combination from_unit to_unit)
      | Some r \<Rightarrow> Inr (PyFloat r))"
  using assms by (simp add: convert_units_def)

text \<open>
  Claim C1. For every float \<open>x\<close> and all temperature units \<open>f\<close> and \<open>t\<close>
  (celsius, fahrenheit, kelvin, rankine), \<^verbatim>\<open>convert_units\<close> returns the value obtained by
  normalising \<open>x\<close> from \<open>f\<close> to kelvin and then converting kelvin to \<open>t\<close> with the
  formulas of the specification.
\<close>

theorem convert_units_normalize_then_denormalize:
  "convert_units ureg (PyFloat x) (unit_name f) (unit_name t) =
     Inr (PyFloat (spec_from_kelvin t (spec_to_kelvin f x)))"
  by (rule convert_units_temperature)

text \<open>
  Claim C2, as stated, fails: a temperature \<^verbatim>\<open>from_unit\<close> never reaches the registry, and
  converting 1 from kelvin to kilograms returns 1.
\<close>

theorem incompatible_units_counterexample:
  "convert_units sample_registry (PyInt 1) ''kelvin'' ''kilograms'' = Inr (PyInt 1)
   \<and> convert_units sample_registry (PyInt 1) ''kelvin'' ''kilograms'' \<noteq>
       Inl (Invalid_unit_combination ''kelvin'' ''kilograms'')"
  by (simp add: convert_units_def isinstance_int_float_def bind_exn_def)

lemma table_registry_rejects:
  assumes "dimension_of units from_unit = None \<or> dimension_of units to_unit = None
           \<or> dimension_of units from_unit \<noteq> dimension_of units to_unit"
  shows "table_registry units v from_unit to_unit = None"
  using assms by (auto simp: table_registry_def dimension_of_def split: option.splits)

lemma round64_1: "round64 1 = Fin 1"
  using round64_pos [of 1 0 "- 52" 4503599627370496] by simp

lemma round64_1000: "round64 1000 = Fin 1000"
  using round64_pos [of 1000 9 "- 43" 8796093022208000] by simp

lemma round64_1_1000: "round64 (1 / 1000) = Fin (1152921504606847 / 1152921504606846976)"
  using round64_pos [of "1 / 1000" "- 10" "- 62" 4611686018427388] by simp

lemma sample_registry_converts:
  "sample_registry (PyInt 1) ''meters'' ''meters'' = Some (Fin 1)"
  "sample_registry (PyInt 1) ''meters'' ''kilometers'' = Some (float_lit (1 / 1000))"
  "sample_registry (PyFloat (Fin 1)) ''kilometers'' ''meters'' = Some (Fin 1000)"
  by (simp_all add: sample_registry_def table_registry_def sample_units_def bind_exn_def
      fdiv_def float_lit_def float_of_int_def round64_1 round64_1000 round64_1_1000)

text \<open>
  Claim C2, amended. When \<^verbatim>\<open>from_unit\<close> is none of the four temperature identifiers and
  \<^verbatim>\<open>from_unit\<close> and \<^verbatim>\<open>to_unit\<close> belong to different physical dimensions, or either
  identifier is unrecognized, \<^verbatim>\<open>convert_units\<close> fails with "Invalid unit combination" and
  returns no number, for a float and for an int value; so for 1 from meters to kilograms.
\<close>

theorem incompatible_units_outside_temperature:
  assumes "from_unit \<notin> {''celsius'', ''fahrenheit'', ''kelvin'', ''rankine''}"
    and "dimension_of units from_unit = None \<or> dimension_of units to_unit = None
         \<or> dimension_of units from_unit \<noteq> dimension_of units to_unit"
  shows "convert_units (table_registry units) (PyFloat x) from_unit to_unit =
           Inl (Invalid_unit_combination from_unit to_unit)
         \<and> convert_units (table_registry units) (PyInt i) from_unit to_unit =
           Inl (Invalid_unit_combination from_unit to_unit)"
proof -
  have "table_registry units v from_unit to_unit = None" for v
    using assms(2) by (rule table_registry_rejects)
  then show ?thesis
    using assms(1) by (simp add: convert_units_other_branch isinstance_int_float_def)
qed

theorem incompatible_units_outside_temperature_witness:
  "''meters'' \<notin> {''celsius'', ''fahrenheit'', ''kelvin'', ''rankine''}
   \<and> dimension_of sample_units ''meters'' = Some ''[length]''
   \<and> dimension_of sample_units ''kilograms'' = Some ''[mass]''
   \<and> convert_units (table_registry sample_units) (PyInt 1) ''meters'' ''kilograms'' =
       Inl (Invalid_unit_combination ''meters'' ''kilograms'')
   \<and> convert_units (table_registry sample_units) (PyInt 1) ''meters'' ''kilometers'' =
       Inr (PyFloat (float_lit (1 / 1000)))"
proof -
  have h1: "''meters'' \<notin> {''celsius'', ''fahrenheit'', ''kelvin'', ''rankine''}"
    by simp
  have d1: "dimension_of sample_units ''meters'' = Some ''[length]''"
    by (simp add: dimension_of_def sample_units_def)
  have d2: "dimension_of sample_units ''kilograms'' = Some ''[mass]''"
    by (simp add: dimension_of_def sample_units_def)
  have h2: "dimension_of sample_units ''meters'' = None
      \<or> dimension_of sample_units ''kilograms'' = None
      \<or> dimension_of sample_units ''meters'' \<noteq> dimension_of sample_units ''kilograms''"
    by (simp add: d1 d2)
  note inst = incompatible_units_outside_temperature
    [where units = sample_units and from_unit = "''meters''" and to_unit = "''kilograms''"
       and i = 1, OF h1 h2, THEN conjunct2]
  have ok: "convert_units (table_registry sample_units) (PyInt 1) ''meters'' ''kilometers'' =
      Inr (PyFloat (float_lit (1 / 1000)))"
    using sample_registry_converts(2)
    by (simp add: convert_units_other_branch isinstance_int_float_def sample_registry_def)
  from h1 d1 d2 inst ok show ?thesis
    by (intro conjI)
qed

text \<open>
  Claim C3, as stated, fails: infinity and NaN are floats, pass the check and are converted.
\<close>

theorem invalid_input_counterexample:
  "convert_units sample_registry (PyFloat PosInf) ''celsius'' ''fahrenheit'' = Inr (PyFloat PosInf)
   \<and> convert_units sample_registry (PyFloat NaN) ''celsius'' ''fahrenheit'' = Inr (PyFloat NaN)"
  using convert_units_not_finite [of PosInf sample_registry Celsius "''fahrenheit''"]
    convert_units_not_finite [of NaN sample_registry Celsius "''fahrenheit''"]
  by (simp add: is_finite_def)

text \<open>
  Claim C3, amended. \<^verbatim>\<open>convert_units\<close> fails with "Please enter a valid number" exactly when
  the value is neither an \<^verbatim>\<open>int\<close> nor a \<^verbatim>\<open>float\<close>. A float that is not finite (NaN or an
  infinity) is accepted; with a temperature \<^verbatim>\<open>from_unit\<close> the conversion is carried out and
  returns that same value.
\<close>

theorem invalid_input_iff_not_a_number:
  "(convert_units ureg v from_unit to_unit = Inl Please_enter_a_valid_number \<longleftrightarrow> v = PyOther)
   \<and> (\<not> is_finite x \<longrightarrow>
        convert_units ureg (PyFloat x) (unit_name f) to_unit = Inr (PyFloat x))"
  by (simp add: invalid_number_iff convert_units_not_finite)

theorem invalid_input_iff_not_a_number_witness:
  "convert_units sample_registry PyOther ''meters'' ''celsius'' = Inl Please_enter_a_valid_number
   \<and> \<not> is_finite NegInf
   \<and> convert_units sample_registry (PyFloat NegInf) ''rankine'' ''celsius'' = Inr (PyFloat NegInf)"
proof -
  have h: "\<not> is_finite NegInf"
    by (simp add: is_finite_def)
  from invalid_input_iff_not_a_number
    [where ureg = sample_registry and v = PyOther and from_unit = "''meters''"
       and to_unit = "''celsius''" and x = NegInf and f = Rankine] h
  show ?thesis by simp
qed

text \<open>
  Claim C5, as stated, fails in its first part: 0 degrees celsius is converted to
  \<open>32 - 2 ^ - 44\<close> (printed 31.999999999999943), because \<open>273.15 * 9\<close> and the quotient by 5
  are rounded.
\<close>

theorem fixed_points_counterexample:
  "convert_units sample_registry (PyInt 0) ''celsius'' ''fahrenheit'' =
     Inr (PyFloat (Fin (562949953421311 / 17592186044416)))
   \<and> (562949953421311 / 17592186044416 :: rat) \<noteq> 32"
  by (simp add: temperature_eval round64_c2f_0_add round64_c2f_0_mul round64_c2f_0_div
      round64_c2f_0_sub)

text \<open>
  Claim C5, amended. Converting 0 from celsius to fahrenheit returns \<open>32 - 2 ^ - 44\<close>, which
  is within \<open>10 ^ - 13\<close> of 32; converting 100 from celsius to kelvin returns the float
  373.15; converting 32 from fahrenheit to celsius returns 0. The value may be given as an
  \<^verbatim>\<open>int\<close> or as a \<^verbatim>\<open>float\<close>.
\<close>

theorem temperature_fixed_points:
  "convert_units ureg (PyFloat (Fin 0)) ''celsius'' ''fahrenheit'' = Inr (PyFloat (Fin (32 - 1 / 2 ^ 44)))
   \<and> convert_units ureg (PyInt 0) ''celsius'' ''fahrenheit'' = Inr (PyFloat (Fin (32 - 1 / 2 ^ 44)))
   \<and> \<bar>(32 - 1 / 2 ^ 44) - (32 :: rat)\<bar> < 1 / 10 ^ 13
   \<and> convert_units ureg (PyFloat (Fin 100)) ''celsius'' ''kelvin'' = Inr (PyFloat (float_lit (37315 / 100)))
   \<and> convert_units ureg (PyInt 100) ''celsius'' ''kelvin'' = Inr (PyFloat (float_lit (37315 / 100)))
   \<and> convert_units ureg (PyFloat (Fin 32)) ''fahrenheit'' ''celsius'' = Inr (PyFloat (Fin 0))
   \<and> convert_units ureg (PyInt 32) ''fahrenheit'' ''celsius'' = Inr (PyFloat (Fin 0))"
proof -
  have "\<bar>(32 - 1 / 2 ^ 44) - (32 :: rat)\<bar> < 1 / 10 ^ 13"
    by simp
  then show ?thesis
    using c2f_0 c2f_0_int c2k_100 c2k_100_int f2c_32 f2c_32_int by (intro conjI)
qed

text \<open>
  Claim C10. With a temperature \<^verbatim>\<open>from_unit\<close> and a \<^verbatim>\<open>to_unit\<close> that is none of
  "celsius", "fahrenheit" and "rankine" (a unit of another category or an unknown string
  included), \<^verbatim>\<open>convert_units\<close> returns no error but the value normalised to kelvin;
  converting 0 from celsius to meters returns 273.15.
\<close>

theorem unmatched_to_unit_is_kelvin:
  assumes "to_unit \<notin> {''celsius'', ''fahrenheit'', ''rankine''}"
  shows "convert_units ureg (PyFloat x) (unit_name f) to_unit = Inr (PyFloat (spec_to_kelvin f x))
         \<and> convert_units ureg (PyInt 0) ''celsius'' ''meters'' = Inr (PyFloat (float_lit (27315 / 100)))
         \<and> convert_units ureg (PyFloat (Fin 0)) ''celsius'' ''meters'' =
             Inr (PyFloat (float_lit (27315 / 100)))"
proof -
  have "convert_units ureg (PyInt 0) ''celsius'' ''meters'' = Inr (PyFloat (float_lit (27315 / 100)))"
    by (simp add: temperature_eval round64_c2f_0_add)
  moreover have "convert_units ureg (PyFloat (Fin 0)) ''celsius'' ''meters'' =
      Inr (PyFloat (float_lit (27315 / 100)))"
    by (simp add: temperature_eval round64_c2f_0_add)
  ultimately show ?thesis
    using assms by (simp add: convert_units_to_other)
qed

theorem unmatched_to_unit_is_kelvin_witness:
  "''kilograms'' \<notin> {''celsius'', ''fahrenheit'', ''rankine''}
   \<and> convert_units sample_registry (PyFloat (Fin 100)) ''celsius'' ''kilograms'' =
       Inr (PyFloat (float_lit (37315 / 100)))"
proof -
  have h: "''kilograms'' \<notin> {''celsius'', ''fahrenheit'', ''rankine''}"
    by simp
  from unmatched_to_unit_is_kelvin [OF h, of sample_registry "Fin 100" Celsius] h
  show ?thesis
    by (simp add: float_lit_def round64_lit_273_15 round64_lit_373_15 round64_c2k_100_add)
qed

section \<open>Search\<close>

lemma py_in_iff: "py_in needle hay \<longleftrightarrow> substring_of needle hay"
proof (induction hay)
  case Nil
  show ?case by (auto simp: substring_of_def)
next
  case (Cons c hay)
  have "substring_of needle (c # hay) \<longleftrightarrow> prefix needle (c # hay) \<or> substring_of needle hay"
  proof
    assume "substring_of needle (c # hay)"
    then obtain before after where eq: "c # hay = before @ needle @ after"
      by (auto simp: substring_of_def)
    show "prefix needle (c # hay) \<or> substring_of needle hay"
    proof (cases before)
      case Nil
      with eq show ?thesis by (auto simp: prefix_def)
    next
      case (Cons b bs)
      with eq have "hay = bs @ needle @ after" by simp
      then show ?thesis by (auto simp: substring_of_def)
    qed
  next
    assume "prefix needle (c # hay) \<or> substring_of needle hay"
    then show "substring_of needle (c # hay)"
    proof
      assume "prefix needle (c # hay)"
      then obtain after where "c # hay = needle @ after" by (auto simp: prefix_def)
      then have "c # hay = [] @ needle @ after" by simp
      then show ?thesis unfolding substring_of_def by blast
    next
      assume "substring_of needle hay"
      then obtain before after where "hay = before @ needle @ after"
        by (auto simp: substring_of_def)
      then have "c # hay = (c # before) @ needle @ after" by simp
      then show ?thesis unfolding substring_of_def by blast
    qed
  qed
  with Cons.IH show ?case by simp
qed

lemma filtered_categories_eq:
  "filtered_categories lower text_input =
    filter (\<lambda>(k, v). substring_of (lower text_input) (lower k)
               \<or> (\<exists>unit\<in>set v. substring_of (lower text_input) (lower unit))) CATEGORIES"
  by (simp add: filtered_categories_def Let_def py_in_iff list_ex_iff)

lemma subseq_filtered_categories: "subseq (filtered_categories lower text_input) CATEGORIES"
  by (simp add: filtered_categories_def Let_def)

text \<open>
  Claim C9. The search is a case-insensitive substring filter over category names and unit
  identifiers: for every query, a category of the catalogue is kept if and only if the
  lower-cased query is a substring of the lower-cased category name or of at least one of
  the category's lower-cased unit identifiers. The search is a total function of the query
  (nothing in it raises), its result is a subsequence of the catalogue, in the catalogue's
  order, and the catalogue itself is a constant.
\<close>

theorem search_is_substring_filter:
  "((k, v) \<in> set (filtered_categories lower text_input) \<longleftrightarrow>
      (k, v) \<in> set CATEGORIES
      \<and> (substring_of (lower text_input) (lower k)
         \<or> (\<exists>unit\<in>set v. substring_of (lower text_input) (lower unit))))
   \<and> subseq (filtered_categories lower text_input) CATEGORIES
   \<and> filtered_categories lower text_input =
       filter (\<lambda>(k, v). substring_of (lower text_input) (lower k)
                 \<or> (\<exists>unit\<in>set v. substring_of (lower text_input) (lower unit))) CATEGORIES"
proof -
  have "(k, v) \<in> set (filtered_categories lower text_input) \<longleftrightarrow>
      (k, v) \<in> set CATEGORIES
      \<and> (substring_of (lower text_input) (lower k)
         \<or> (\<exists>unit\<in>set v. substring_of (lower text_input) (lower unit)))"
    unfolding filtered_categories_eq by auto
  then show ?thesis
    using subseq_filtered_categories [of lower text_input]
      filtered_categories_eq [of lower text_input]
    by (intro conjI)
qed

theorem search_is_substring_filter_witness:
  "([CHR 0xF0, CHR 0x9F, CHR 0x8C, CHR 0xA1, CHR 0xEF, CHR 0xB8, CHR 0x8F] @ '' Temperature'', [''celsius'', ''fahrenheit'', ''kelvin'', ''rankine'']) \<in> set CATEGORIES
   \<and> (\<exists>unit\<in>set [''celsius'', ''fahrenheit'', ''kelvin'', ''rankine''].
         substring_of (ascii_lower ''KELVIN'') (ascii_lower unit))
   \<and> ([CHR 0xF0, CHR 0x9F, CHR 0x8C, CHR 0xA1, CHR 0xEF, CHR 0xB8, CHR 0x8F] @ '' Temperature'', [''celsius'', ''fahrenheit'', ''kelvin'', ''rankine'']) \<in> set (filtered_categories ascii_lower ''KELVIN'')
   \<and> filtered_categories ascii_lower ''KELVIN'' = [([CHR 0xF0, CHR 0x9F, CHR 0x8C, CHR 0xA1, CHR 0xEF, CHR 0xB8, CHR 0x8F] @ '' Temperature'', [''celsius'', ''fahrenheit'', ''kelvin'', ''rankine''])]"
proof -
  have m: "([CHR 0xF0, CHR 0x9F, CHR 0x8C, CHR 0xA1, CHR 0xEF, CHR 0xB8, CHR 0x8F] @ '' Temperature'', [''celsius'', ''fahrenheit'', ''kelvin'', ''rankine'']) \<in> set CATEGORIES"
    by (simp add: CATEGORIES_def)
  have "ascii_lower ''KELVIN'' = ''kelvin''" "ascii_lower ''kelvin'' = ''kelvin''"
    by (simp_all add: ascii_lower_def)
  then have "substring_of (ascii_lower ''KELVIN'') (ascii_lower ''kelvin'')"
    using py_in_iff [of "''kelvin''" "''kelvin''"] by simp
  then have e: "\<exists>unit\<in>set [''celsius'', ''fahrenheit'', ''kelvin'', ''rankine''].
      substring_of (ascii_lower ''KELVIN'') (ascii_lower unit)"
    by (intro bexI [of _ "''kelvin''"]) simp_all
  have kept: "([CHR 0xF0, CHR 0x9F, CHR 0x8C, CHR 0xA1, CHR 0xEF, CHR 0xB8, CHR 0x8F] @ '' Temperature'', [''celsius'', ''fahrenheit'', ''kelvin'', ''rankine'']) \<in> set (filtered_categories ascii_lower ''KELVIN'')"
    by (rule search_is_substring_filter [THEN conjunct1, THEN iffD2, OF conjI [OF m disjI2 [OF e]]])
  have all: "filtered_categories ascii_lower ''KELVIN'' = [([CHR 0xF0, CHR 0x9F, CHR 0x8C, CHR 0xA1, CHR 0xEF, CHR 0xB8, CHR 0x8F] @ '' Temperature'', [''celsius'', ''fahrenheit'', ''kelvin'', ''rankine''])]"
    by code_simp
  from m e kept all show ?thesis
    by (intro conjI)
qed

section \<open>The round trip between celsius and fahrenheit\<close>

text \<open>
  A rounding step: when \<open>q\<close> is within \<open>E\<close> of a target \<open>t\<close> of magnitude at most \<open>T\<close>,
  the rounded \<open>q\<close> is finite and within \<open>E + (T + E) / 2 ^ 53 + 2 ^ - 1075\<close> of \<open>t\<close>.
\<close>

lemma round64_step:
  assumes "\<bar>q - t\<bar> \<le> E" "\<bar>t\<bar> \<le> T" "T + E \<le> 2 ^ 1023"
  shows "\<exists>r. round64 q = Fin r \<and> \<bar>r - t\<bar> \<le> E + (T + E) / 2 ^ 53 + 1 / 2 ^ 1075"
proof -
  have q: "\<bar>q\<bar> \<le> T + E"
    using assms(1,2) by linarith
  with assms(3) have "\<bar>q\<bar> \<le> 2 ^ 1023"
    by linarith
  then obtain r where r: "round64 q = Fin r" "\<bar>r - q\<bar> \<le> \<bar>q\<bar> / 2 ^ 53 + 1 / 2 ^ 1075"
    using round64_error by blast
  have "\<bar>q\<bar> / 2 ^ 53 \<le> (T + E) / 2 ^ 53"
    using q by (simp add: divide_right_mono)
  with r(2) assms(1) have "\<bar>r - t\<bar> \<le> E + (T + E) / 2 ^ 53 + 1 / 2 ^ 1075"
    by linarith
  with r(1) show ?thesis by blast
qed

lemma round64_pos_overflow:
  assumes "0 < q" "(2::rat) powi e \<le> q" "q < (2::rat) powi (e + 1)"
    and "p = max (e - 52) (- 1074)"
    and "\<bar>q / (2::rat) powi p - of_int m\<bar> < 1 / 2"
    and "2 ^ 1024 \<le> of_int m * (2::rat) powi p"
  shows "round64 q = PosInf"
proof -
  have aq: "\<bar>q\<bar> = q" using assms(1) by simp
  have e: "ilog2 q = e"
    using assms(1-3) by (rule ilog2_unique)
  have pe: "max (ilog2 q - 52) (- 1074) = p"
    using e assms(4) by simp
  have m: "round_half_even (q / 2 powi p) = m"
    using assms(5) by (rule round_half_even_eqI)
  have nz: "q \<noteq> 0" using assms(1) by simp
  show ?thesis
    unfolding round64_def Let_def aq pe m using nz assms(1,6) by simp
qed

lemma round64_huge_add: "round64 (2 ^ 1023 + 2402652809016115 / 8796093022208) = Fin (2 ^ 1023)"
  using round64_pos [of "2 ^ 1023 + 2402652809016115 / 8796093022208" 1023 971 "2 ^ 52"]
  by simp

lemma round64_huge_mul: "round64 (2 ^ 1023 * 9) = PosInf"
  using round64_pos_overflow [of "2 ^ 1023 * 9" 1026 974 "9 * 2 ^ 49"]
  by simp


lemma celsius_to_fahrenheit_error:
  assumes "\<bar>x\<bar> \<le> 2 ^ 1019"
  shows "\<exists>f. spec_from_kelvin Fahrenheit (spec_to_kelvin Celsius (Fin x)) = Fin f
          \<and> \<bar>f - ((x + (2402652809016115 / 8796093022208)) * 9 / 5 - (8086600159036703 / 17592186044416))\<bar> \<le> 8 * (\<bar>x\<bar> + 1000) / 2 ^ 53"
proof -
  define M where "M = \<bar>x\<bar> + 1000"
  have M: "1000 \<le> M" "M \<le> 2 ^ 1019 + 1000" "\<bar>x\<bar> \<le> M - 1000"
    using assms by (simp_all add: M_def)
  define t1 where "t1 = x + (2402652809016115 / 8796093022208)"
  have t1: "\<bar>t1\<bar> \<le> M"
    using M by (simp add: t1_def)
  have "\<bar>x + (2402652809016115 / 8796093022208) - t1\<bar> \<le> 0" "\<bar>t1\<bar> \<le> M" "M + 0 \<le> 2 ^ 1023"
    using M t1 by (simp_all add: t1_def)
  from round64_step [OF this] obtain r1 where r1: "round64 (x + (2402652809016115 / 8796093022208)) = Fin r1"
    and "\<bar>r1 - t1\<bar> \<le> 0 + (M + 0) / 2 ^ 53 + 1 / 2 ^ 1075"
    by blast
  then have e1: "\<bar>r1 - t1\<bar> \<le> 101 / 100 * M / 2 ^ 53"
    using M by simp
  have "\<bar>r1 * 9 - t1 * 9\<bar> \<le> 9 * (101 / 100 * M / 2 ^ 53)"
    using e1 by linarith
  moreover have "\<bar>t1 * 9\<bar> \<le> 9 * M"
    using t1 by linarith
  moreover have "9 * M + 9 * (101 / 100 * M / 2 ^ 53) \<le> 2 ^ 1023"
    using M by simp
  ultimately obtain r2 where r2: "round64 (r1 * 9) = Fin r2"
    and "\<bar>r2 - t1 * 9\<bar> \<le> 9 * (101 / 100 * M / 2 ^ 53)
        + (9 * M + 9 * (101 / 100 * M / 2 ^ 53)) / 2 ^ 53 + 1 / 2 ^ 1075"
    using round64_step by blast
  then have e2: "\<bar>r2 - t1 * 9\<bar> \<le> 182 / 10 * M / 2 ^ 53"
    using M by simp
  have "\<bar>r2 / 5 - t1 * 9 / 5\<bar> \<le> 182 / 50 * M / 2 ^ 53"
    using e2 by linarith
  moreover have "\<bar>t1 * 9 / 5\<bar> \<le> 9 / 5 * M"
    using t1 by linarith
  moreover have "9 / 5 * M + 182 / 50 * M / 2 ^ 53 \<le> 2 ^ 1023"
    using M by simp
  ultimately obtain r3 where r3: "round64 (r2 / 5) = Fin r3"
    and "\<bar>r3 - t1 * 9 / 5\<bar> \<le> 182 / 50 * M / 2 ^ 53
        + (9 / 5 * M + 182 / 50 * M / 2 ^ 53) / 2 ^ 53 + 1 / 2 ^ 1075"
    using round64_step by blast
  then have e3: "\<bar>r3 - t1 * 9 / 5\<bar> \<le> 55 / 10 * M / 2 ^ 53"
    using M by simp
  have "\<bar>r3 - (8086600159036703 / 17592186044416) - (t1 * 9 / 5 - (8086600159036703 / 17592186044416))\<bar> \<le> 55 / 10 * M / 2 ^ 53"
    using e3 by linarith
  moreover have "\<bar>t1 * 9 / 5 - (8086600159036703 / 17592186044416)\<bar> \<le> 23 / 10 * M"
    using t1 M by linarith
  moreover have "23 / 10 * M + 55 / 10 * M / 2 ^ 53 \<le> 2 ^ 1023"
    using M by simp
  ultimately obtain r4 where r4: "round64 (r3 - (8086600159036703 / 17592186044416)) = Fin r4"
    and "\<bar>r4 - (t1 * 9 / 5 - (8086600159036703 / 17592186044416))\<bar> \<le> 55 / 10 * M / 2 ^ 53
        + (23 / 10 * M + 55 / 10 * M / 2 ^ 53) / 2 ^ 53 + 1 / 2 ^ 1075"
    using round64_step by blast
  then have e4: "\<bar>r4 - (t1 * 9 / 5 - (8086600159036703 / 17592186044416))\<bar> \<le> 8 * M / 2 ^ 53"
    using M by simp
  have "spec_from_kelvin Fahrenheit (spec_to_kelvin Celsius (Fin x)) = Fin r4"
    by (simp add: float_lit_def round64_lit_273_15 round64_lit_459_67 fsub_def r1 r2 r3 r4)
  with e4 show ?thesis
    unfolding M_def t1_def by blast
qed

lemma fahrenheit_to_celsius_error:
  assumes "\<bar>f\<bar> \<le> 3 * 2 ^ 1019"
  shows "\<exists>w. spec_from_kelvin Celsius (spec_to_kelvin Fahrenheit (Fin f)) = Fin w
          \<and> \<bar>w - ((f + (8086600159036703 / 17592186044416)) * 5 / 9 - (2402652809016115 / 8796093022208))\<bar> \<le> 3 * (\<bar>f\<bar> + 1000) / 2 ^ 53"
proof -
  define M where "M = \<bar>f\<bar> + 1000"
  have M: "1000 \<le> M" "M \<le> 3 * 2 ^ 1019 + 1000" "\<bar>f\<bar> \<le> M - 1000"
    using assms by (simp_all add: M_def)
  define t1 where "t1 = f + (8086600159036703 / 17592186044416)"
  have t1: "\<bar>t1\<bar> \<le> M"
    using M by (simp add: t1_def)
  have "\<bar>f + (8086600159036703 / 17592186044416) - t1\<bar> \<le> 0" "\<bar>t1\<bar> \<le> M" "M + 0 \<le> 2 ^ 1023"
    using M t1 by (simp_all add: t1_def)
  from round64_step [OF this] obtain r1 where r1: "round64 (f + (8086600159036703 / 17592186044416)) = Fin r1"
    and "\<bar>r1 - t1\<bar> \<le> 0 + (M + 0) / 2 ^ 53 + 1 / 2 ^ 1075"
    by blast
  then have e1: "\<bar>r1 - t1\<bar> \<le> 101 / 100 * M / 2 ^ 53"
    using M by simp
  have "\<bar>r1 * 5 - t1 * 5\<bar> \<le> 5 * (101 / 100 * M / 2 ^ 53)"
    using e1 by linarith
  moreover have "\<bar>t1 * 5\<bar> \<le> 5 * M"
    using t1 by linarith
  moreover have "5 * M + 5 * (101 / 100 * M / 2 ^ 53) \<le> 2 ^ 1023"
    using M by simp
  ultimately obtain r2 where r2: "round64 (r1 * 5) = Fin r2"
    and "\<bar>r2 - t1 * 5\<bar> \<le> 5 * (101 / 100 * M / 2 ^ 53)
        + (5 * M + 5 * (101 / 100 * M / 2 ^ 53)) / 2 ^ 53 + 1 / 2 ^ 1075"
    using round64_step by blast
  then have e2: "\<bar>r2 - t1 * 5\<bar> \<le> 101 / 10 * M / 2 ^ 53"
    using M by simp
  have "\<bar>r2 / 9 - t1 * 5 / 9\<bar> \<le> 101 / 90 * M / 2 ^ 53"
    using e2 by linarith
  moreover have "\<bar>t1 * 5 / 9\<bar> \<le> 5 / 9 * M"
    using t1 by linarith
  moreover have "5 / 9 * M + 101 / 90 * M / 2 ^ 53 \<le> 2 ^ 1023"
    using M by simp
  ultimately obtain r3 where r3: "round64 (r2 / 9) = Fin r3"
    and "\<bar>r3 - t1 * 5 / 9\<bar> \<le> 101 / 90 * M / 2 ^ 53
        + (5 / 9 * M + 101 / 90 * M / 2 ^ 53) / 2 ^ 53 + 1 / 2 ^ 1075"
    using round64_step by blast
  then have e3: "\<bar>r3 - t1 * 5 / 9\<bar> \<le> 17 / 10 * M / 2 ^ 53"
    using M by simp
  have "\<bar>r3 - (2402652809016115 / 8796093022208) - (t1 * 5 / 9 - (2402652809016115 / 8796093022208))\<bar> \<le> 17 / 10 * M / 2 ^ 53"
    using e3 by linarith
  moreover have "\<bar>t1 * 5 / 9 - (2402652809016115 / 8796093022208)\<bar> \<le> 9 / 10 * M"
    using t1 M by linarith
  moreover have "9 / 10 * M + 17 / 10 * M / 2 ^ 53 \<le> 2 ^ 1023"
    using M by simp
  ultimately obtain r4 where r4: "round64 (r3 - (2402652809016115 / 8796093022208)) = Fin r4"
    and "\<bar>r4 - (t1 * 5 / 9 - (2402652809016115 / 8796093022208))\<bar> \<le> 17 / 10 * M / 2 ^ 53
        + (9 / 10 * M + 17 / 10 * M / 2 ^ 53) / 2 ^ 53 + 1 / 2 ^ 1075"
    using round64_step by blast
  then have e4: "\<bar>r4 - (t1 * 5 / 9 - (2402652809016115 / 8796093022208))\<bar> \<le> 3 * M / 2 ^ 53"
    using M by simp
  have "spec_from_kelvin Celsius (spec_to_kelvin Fahrenheit (Fin f)) = Fin r4"
    by (simp add: float_lit_def round64_lit_273_15 round64_lit_459_67 fsub_def r1 r2 r3 r4)
  with e4 show ?thesis
    unfolding M_def t1_def by blast
qed

lemma float_lit_273_15: "float_lit (27315 / 100) = Fin (2402652809016115 / 8796093022208)"
  by (simp add: float_lit_def round64_lit_273_15)

lemma float_lit_459_67: "float_lit (45967 / 100) = Fin (8086600159036703 / 17592186044416)"
  by (simp add: float_lit_def round64_lit_459_67)

lemma celsius_to_fahrenheit_overflow:
  "spec_from_kelvin Fahrenheit (spec_to_kelvin Celsius (Fin (2 ^ 1023))) = PosInf"
proof -
  have a: "spec_to_kelvin Celsius (Fin (2 ^ 1023)) = Fin (2 ^ 1023)"
    by (simp only: spec_to_kelvin.simps float_lit_273_15 fadd.simps round64_huge_add)
  have b: "fmul (Fin (2 ^ 1023)) (Fin 9) = PosInf"
    by (simp only: fmul.simps round64_huge_mul)
  have "spec_from_kelvin Fahrenheit (Fin (2 ^ 1023)) = fsub (fquot PosInf (Fin 5)) (Fin (8086600159036703 / 17592186044416))"
    by (simp only: spec_from_kelvin.simps b float_lit_459_67)
  also have "\<dots> = PosInf"
    by (simp add: fsub_def signed_inf_def)
  finally show ?thesis
    by (simp only: a)
qed

lemma round64_rt_1_add: "round64 (2411448902038323 / 8796093022208) = Fin (2411448902038323 / 8796093022208)"
  using round64_pos [of "2411448902038323 / 8796093022208" 8 "- 44" 4822897804076646] by simp

lemma round64_rt_1_mul: "round64 (21703040118344907 / 8796093022208) = Fin (5425760029586227 / 2199023255552)"
  using round64_pos [of "21703040118344907 / 8796093022208" 11 "- 41" 5425760029586227] by simp

lemma round64_rt_1_div: "round64 (5425760029586227 / 10995116277760) = Fin (8681216047337963 / 17592186044416)"
  using round64_pos [of "5425760029586227 / 10995116277760" 8 "- 44" 8681216047337963] by simp

lemma round64_rt_1_sub: "round64 (148653972075315 / 4398046511104) = Fin (148653972075315 / 4398046511104)"
  using round64_pos [of "148653972075315 / 4398046511104" 5 "- 47" 4756927106410080] by simp

lemma round64_rt_1_back_add: "round64 (8681216047337963 / 17592186044416) = Fin (8681216047337963 / 17592186044416)"
  using round64_pos [of "8681216047337963 / 17592186044416" 8 "- 44" 8681216047337963] by simp

lemma round64_rt_1_back_mul: "round64 (43406080236689815 / 17592186044416) = Fin (5425760029586227 / 2199023255552)"
  using round64_pos [of "43406080236689815 / 17592186044416" 11 "- 41" 5425760029586227] by simp

lemma round64_rt_1_back_div: "round64 (5425760029586227 / 19791209299968) = Fin (2411448902038323 / 8796093022208)"
  using round64_pos [of "5425760029586227 / 19791209299968" 8 "- 44" 4822897804076646] by simp


lemma round_trip_1: "round_trip ureg (PyFloat (Fin 1)) = Inr (PyFloat (Fin 1))"
  by (simp add: round_trip_def temperature_eval round64_rt_1_add round64_rt_1_mul
      round64_rt_1_div round64_rt_1_sub round64_rt_1_back_add round64_rt_1_back_mul
      round64_rt_1_back_div round64_1)

text \<open>
  Claim C6, as stated, fails for large finite values: for \<open>v = 2 ^ 1023\<close> the product
  \<open>(v + 273.15) * 9\<close> overflows, and the round trip returns infinity.
\<close>

theorem round_trip_counterexample:
  "round_trip sample_registry (PyFloat (Fin (2 ^ 1023))) = Inr (PyFloat PosInf)"
proof -
  have "convert_units sample_registry (PyFloat (Fin (2 ^ 1023))) ''celsius'' ''fahrenheit'' =
      Inr (PyFloat PosInf)"
    using convert_units_temperature [of sample_registry "Fin (2 ^ 1023)" Celsius Fahrenheit]
    by (simp only: unit_name.simps celsius_to_fahrenheit_overflow)
  moreover have "convert_units sample_registry (PyFloat PosInf) ''fahrenheit'' ''celsius'' =
      Inr (PyFloat PosInf)"
    using convert_units_not_finite [of PosInf sample_registry Fahrenheit "''celsius''"]
    by (simp add: is_finite_def)
  ultimately show ?thesis
    by (simp only: round_trip_def sum.case)
qed

text \<open>
  Claim C6, amended. For every finite value \<open>x\<close> with \<open>\<bar>x\<bar> \<le> 2 ^ 1019\<close>, converting \<open>x\<close>
  from celsius to fahrenheit and the result back to celsius returns a finite float \<open>w\<close>
  with \<open>\<bar>w - x\<bar> \<le> (\<bar>x\<bar> + 1000) / 2 ^ 49\<close>.
\<close>

theorem celsius_fahrenheit_round_trip:
  assumes "\<bar>x\<bar> \<le> 2 ^ 1019"
  shows "\<exists>w. round_trip ureg (PyFloat (Fin x)) = Inr (PyFloat (Fin w))
          \<and> \<bar>w - x\<bar> \<le> (\<bar>x\<bar> + 1000) / 2 ^ 49"
proof -
  from celsius_to_fahrenheit_error [OF assms] obtain f
    where f: "spec_from_kelvin Fahrenheit (spec_to_kelvin Celsius (Fin x)) = Fin f"
      and ef: "\<bar>f - ((x + (2402652809016115 / 8796093022208)) * 9 / 5 - (8086600159036703 / 17592186044416))\<bar> \<le> 8 * (\<bar>x\<bar> + 1000) / 2 ^ 53"
    by blast
  have fb: "\<bar>f\<bar> \<le> 2 * \<bar>x\<bar> + 1000"
    using ef by (simp add: field_simps)
  then have "\<bar>f\<bar> \<le> 3 * 2 ^ 1019"
    using assms by simp
  from fahrenheit_to_celsius_error [OF this] obtain w
    where w: "spec_from_kelvin Celsius (spec_to_kelvin Fahrenheit (Fin f)) = Fin w"
      and ew: "\<bar>w - ((f + (8086600159036703 / 17592186044416)) * 5 / 9 - (2402652809016115 / 8796093022208))\<bar> \<le> 3 * (\<bar>f\<bar> + 1000) / 2 ^ 53"
    by blast
  have "convert_units ureg (PyFloat (Fin x)) ''celsius'' ''fahrenheit'' = Inr (PyFloat (Fin f))"
    using convert_units_temperature [of ureg "Fin x" Celsius Fahrenheit] f by simp
  moreover have "convert_units ureg (PyFloat (Fin f)) ''fahrenheit'' ''celsius'' = Inr (PyFloat (Fin w))"
    using convert_units_temperature [of ureg "Fin f" Fahrenheit Celsius] w by simp
  ultimately have rt: "round_trip ureg (PyFloat (Fin x)) = Inr (PyFloat (Fin w))"
    by (simp add: round_trip_def)
  define u where "u = (\<bar>x\<bar> + 1000) / 2 ^ 53"
  define g where "g = (f + (8086600159036703 / 17592186044416)) * 5 / 9 - (2402652809016115 / 8796093022208)"
  define d where "d = f - ((x + (2402652809016115 / 8796093022208)) * 9 / 5 - (8086600159036703 / 17592186044416))"
  have gx_eq: "g - x = 5 / 9 * d"
    unfolding g_def d_def by (simp add: field_simps)
  have "\<bar>g - x\<bar> = 5 / 9 * \<bar>d\<bar>"
    unfolding gx_eq by (simp add: abs_mult)
  moreover have "\<bar>d\<bar> \<le> 8 * u"
    using ef by (simp add: d_def u_def)
  ultimately have gx: "\<bar>g - x\<bar> \<le> 40 / 9 * u"
    by linarith
  have "3 * (\<bar>f\<bar> + 1000) / 2 ^ 53 \<le> 3 * (2 * \<bar>x\<bar> + 1000 + 1000) / 2 ^ 53"
    using fb by (intro divide_right_mono) simp_all
  with ew have wg: "\<bar>w - g\<bar> \<le> 6 * u"
    by (simp add: u_def g_def)
  have "\<bar>w - x\<bar> \<le> \<bar>w - g\<bar> + \<bar>g - x\<bar>"
    by linarith
  moreover have "0 \<le> u"
    by (simp add: u_def)
  ultimately have "\<bar>w - x\<bar> \<le> 16 * u"
    using gx wg by linarith
  then have "\<bar>w - x\<bar> \<le> (\<bar>x\<bar> + 1000) / 2 ^ 49"
    by (simp add: u_def)
  with rt show ?thesis by blast
qed

theorem celsius_fahrenheit_round_trip_witness:
  "\<bar>1 :: rat\<bar> \<le> 2 ^ 1019
   \<and> (\<exists>w. round_trip sample_registry (PyFloat (Fin 1)) = Inr (PyFloat (Fin w))
          \<and> \<bar>w - 1\<bar> \<le> (\<bar>1\<bar> + 1000) / 2 ^ 49)
   \<and> round_trip sample_registry (PyFloat (Fin 1)) = Inr (PyFloat (Fin 1))"
proof -
  have h: "\<bar>1 :: rat\<bar> \<le> 2 ^ 1019"
    by simp
  from h celsius_fahrenheit_round_trip [OF h, of sample_registry] round_trip_1 [of sample_registry]
  show ?thesis
    by (intro conjI)
qed

end
